theory Spec2Isabelle
  imports Main
begin

unbundle bit_operations_syntax

section \<open>Register map and lookup tables of arducli.py\<close>

text \<open>
  Register identifiers are the module-level constants of arducli.py, each a region base
  OR-ed with an offset. Register numbers and register values are non-negative Python
  integers; they are modelled as \<open>nat\<close>.
\<close>

definition DEVICE_REG_BASE :: nat where "DEVICE_REG_BASE = 0x0100"
definition PIXFORMAT_REG_BASE :: nat where "PIXFORMAT_REG_BASE = 0x0200"
definition FORMAT_REG_BASE :: nat where "FORMAT_REG_BASE = 0x0300"
definition CTRL_REG_BASE :: nat where "CTRL_REG_BASE = 0x0400"
definition IPC_REG_BASE :: nat where "IPC_REG_BASE = 0x0600"

definition STREAM_ON :: nat where "STREAM_ON = DEVICE_REG_BASE OR 0x0000"
definition DEVICE_VERSION_REG :: nat where "DEVICE_VERSION_REG = DEVICE_REG_BASE OR 0x0001"
definition SENSOR_ID_REG :: nat where "SENSOR_ID_REG = DEVICE_REG_BASE OR 0x0002"
definition DEVICE_ID_REG :: nat where "DEVICE_ID_REG = DEVICE_REG_BASE OR 0x0003"
definition FIRMWARE_SENSOR_ID_REG :: nat where
  "FIRMWARE_SENSOR_ID_REG = DEVICE_REG_BASE OR 0x0005"
definition UNIQUE_ID_REG :: nat where "UNIQUE_ID_REG = DEVICE_REG_BASE OR 0x0006"
definition SYSTEM_IDLE_REG :: nat where "SYSTEM_IDLE_REG = DEVICE_REG_BASE OR 0x0007"
definition SOFT_VERSION_LEN_REG :: nat where "SOFT_VERSION_LEN_REG = DEVICE_REG_BASE OR 0x00F0"
definition SOFT_VERSION_INDEX_REG :: nat where
  "SOFT_VERSION_INDEX_REG = DEVICE_REG_BASE OR 0x00F1"
definition SOFT_VERSION_REG :: nat where "SOFT_VERSION_REG = DEVICE_REG_BASE OR 0x00F2"
definition PIXFORMAT_INDEX_REG :: nat where "PIXFORMAT_INDEX_REG = PIXFORMAT_REG_BASE OR 0x0000"
definition PIXFORMAT_TYPE_REG :: nat where "PIXFORMAT_TYPE_REG = PIXFORMAT_REG_BASE OR 0x0001"
definition PIXFORMAT_ORDER_REG :: nat where "PIXFORMAT_ORDER_REG = PIXFORMAT_REG_BASE OR 0x0002"
definition MIPI_LANES_REG :: nat where "MIPI_LANES_REG = PIXFORMAT_REG_BASE OR 0x0003"
definition RESOLUTION_INDEX_REG :: nat where "RESOLUTION_INDEX_REG = FORMAT_REG_BASE OR 0x0000"
definition FORMAT_WIDTH_REG :: nat where "FORMAT_WIDTH_REG = FORMAT_REG_BASE OR 0x0001"
definition FORMAT_HEIGHT_REG :: nat where "FORMAT_HEIGHT_REG = FORMAT_REG_BASE OR 0x0002"
definition CTRL_INDEX_REG :: nat where "CTRL_INDEX_REG = CTRL_REG_BASE OR 0x0000"
definition CTRL_ID_REG :: nat where "CTRL_ID_REG = CTRL_REG_BASE OR 0x0001"
definition CTRL_MIN_REG :: nat where "CTRL_MIN_REG = CTRL_REG_BASE OR 0x0002"
definition CTRL_MAX_REG :: nat where "CTRL_MAX_REG = CTRL_REG_BASE OR 0x0003"
definition CTRL_DEF_REG :: nat where "CTRL_DEF_REG = CTRL_REG_BASE OR 0x0005"
definition CTRL_VALUE_REG :: nat where "CTRL_VALUE_REG = CTRL_REG_BASE OR 0x0006"
definition NO_DATA_AVAILABLE :: nat where "NO_DATA_AVAILABLE = 0xFFFFFFFE"

text \<open>The dictionaries; \<open>d.get(k, default)\<close> is \<open>dict_get\<close>.\<close>

definition dict_get :: "('k \<rightharpoonup> 'v) \<Rightarrow> 'k \<Rightarrow> 'v \<Rightarrow> 'v" where
  "dict_get d k dflt = (case d k of None \<Rightarrow> dflt | Some v \<Rightarrow> v)"

definition pix_type_map :: "nat \<rightharpoonup> string" where
  "pix_type_map = map_of
     [(0x2A, ''RAW8''), (0x2B, ''RAW10''), (0x2C, ''RAW12''), (0x18, ''YUV420_8BIT''),
      (0x19, ''YUV420_10BIT''), (0x1E, ''YUV422_8BIT''), (0x30, ''JPEG'')]"

definition raw_bayer_order :: "nat \<rightharpoonup> string" where
  "raw_bayer_order = map_of
     [(0x0, ''BGGR''), (0x1, ''GBRG''), (0x2, ''GRBG''), (0x3, ''RGGB''), (0x4, ''MONO'')]"

definition yuv_order :: "nat \<rightharpoonup> string" where
  "yuv_order = map_of [(0x0, ''YUYV''), (0x1, ''YVYU''), (0x2, ''UYVY''), (0x3, ''VYUY'')]"

definition control_id_map :: "nat \<rightharpoonup> string" where
  "control_id_map = map_of
     [(0x980902, ''Saturation''), (0x98090c, ''AWBMode''), (0x98090e, ''RedGain''),
      (0x98090f, ''BlueGain''), (0x98091a, ''ColorTemperature''), (0x9a0901, ''AEEnable''),
      (0x9a0919, ''ExposureMetering''), (0x980911, ''Exposure''), (0x981901, ''TriggerMode''),
      (0x981906, ''Framerate''), (0x9e0903, ''AnalogueGain''), (0x9A090A, ''Focus''),
      (0x980900, ''brightness''), (0x980901, ''contrast''), (0x98091B, ''sharpness''),
      (0x980913, ''gain'')]"

text \<open>\<open>ID_map\<close> after \<open>ID_map.update(control_id_map)\<close>.\<close>

definition ID_map :: "nat \<rightharpoonup> string" where
  "ID_map = map_of
     [(0x980914, ''horizontal_flip''), (0x980915, ''vertical_flip''),
      (0x98190E, ''strobe_width''), (0x98190F, ''strobe_shift''),
      (0x9e0901, ''vertical_blanking''), (0x9e0902, ''horizontal_blanking''),
      (0x9f0902, ''pixel_rate''), (0x98091C, ''backlight_compensation'')] ++ control_id_map"

section \<open>Python integer formatting\<close>

text \<open>
  The format specifications used by \<open>parse_isp_fw_version\<close>: \<open>x\<close> (lower-case
  hexadecimal), \<open>02x\<close> and \<open>02d\<close> (zero padding to a minimum width, placed after the
  sign). \<open>py_format base width\<close> covers them: base 16 or 10, minimum width 0 or 2.
\<close>

definition digit_char :: "nat \<Rightarrow> char" where
  "digit_char d = ''0123456789abcdef'' ! d"

fun digits_of :: "nat \<Rightarrow> nat \<Rightarrow> string" where
  "digits_of base n =
     (if base < 2 \<or> n < base then [digit_char n]
      else digits_of base (n div base) @ [digit_char (n mod base)])"

declare digits_of.simps [simp del]

definition py_format :: "nat \<Rightarrow> nat \<Rightarrow> int \<Rightarrow> string" where
  "py_format base width x =
     (let sign = (if x < 0 then ''-'' else '''');
          body = digits_of base (nat \<bar>x\<bar>)
      in sign @ replicate (width - length sign - length body) (CHR ''0'') @ body)"

section \<open>Firmware version decoding\<close>

text \<open>\<open>parse_isp_fw_version\<close> of arducli.py, on a Python integer.\<close>

definition parse_isp_fw_version :: "int \<Rightarrow> string" where
  "parse_isp_fw_version isp_fw_version =
     (let isp_id = drop_bit 16 (isp_fw_version AND 0xFFFF0000);
          isp_id_high = drop_bit 8 (isp_id AND 0xFF00);
          isp_id_low = isp_id AND 0x00FF;
          isp_fw_date = isp_fw_version AND 0xFFFF;
          isp_fw_year = drop_bit 9 isp_fw_date;
          isp_fw_month = drop_bit 5 isp_fw_date AND 0x0F;
          isp_fw_day = isp_fw_date AND 0x1F
      in ''v'' @ py_format 16 0 isp_id_high @ ''.'' @ py_format 16 2 isp_id_low @ '' 20''
         @ py_format 10 2 isp_fw_year @ ''/'' @ py_format 10 2 isp_fw_month @ ''/''
         @ py_format 10 2 isp_fw_day)"

text \<open>
  The decoder as the specification words it: the same bit fields, with the year printed as
  the number \<open>2000 + year\<close>.
\<close>

definition spec_fw_id :: "int \<Rightarrow> int" where
  "spec_fw_id v = drop_bit 16 v AND 0xFFFF"
definition spec_fw_idHigh :: "int \<Rightarrow> int" where
  "spec_fw_idHigh v = drop_bit 8 (spec_fw_id v) AND 0xFF"
definition spec_fw_idLow :: "int \<Rightarrow> int" where
  "spec_fw_idLow v = spec_fw_id v AND 0xFF"
definition spec_fw_date :: "int \<Rightarrow> int" where
  "spec_fw_date v = v AND 0xFFFF"
definition spec_fw_year :: "int \<Rightarrow> int" where
  "spec_fw_year v = drop_bit 9 (spec_fw_date v)"
definition spec_fw_month :: "int \<Rightarrow> int" where
  "spec_fw_month v = drop_bit 5 (spec_fw_date v) AND 0xF"
definition spec_fw_day :: "int \<Rightarrow> int" where
  "spec_fw_day v = spec_fw_date v AND 0x1F"

definition spec_fw_version :: "int \<Rightarrow> string" where
  "spec_fw_version v =
     ''v'' @ py_format 16 0 (spec_fw_idHigh v) @ ''.'' @ py_format 16 2 (spec_fw_idLow v)
     @ '' '' @ py_format 10 0 (2000 + spec_fw_year v) @ ''/''
     @ py_format 10 2 (spec_fw_month v) @ ''/'' @ py_format 10 2 (spec_fw_day v)"

section \<open>FOURCC derivation\<close>

text \<open>The \<open>if/elif\<close> chain of \<open>list_formats\<close> that determines \<open>fourcc\<close>.\<close>

definition fourcc_of :: "nat \<Rightarrow> nat \<Rightarrow> string" where
  "fourcc_of pix_type pix_order =
     (if pix_type \<in> set [0x18, 0x19, 0x1E] then dict_get yuv_order pix_order ''YUYV''
      else if pix_type \<in> set [0x2A, 0x2B, 0x2C] then dict_get raw_bayer_order pix_order ''RGGB''
      else if pix_type = 0x30 then ''MJPG''
      else ''UNKN'')"

section \<open>The transport, the camera object and the effects of a run\<close>

text \<open>
  The camera is reached through \<open>I2CDevice\<close> of the module \<open>i2c_tools\<close>, which is not
  part of the sources: opening a bus, \<open>read_16_32\<close> and \<open>write_16_32\<close>. The transport is
  therefore a parameter of the model, the record \<open>world\<close>: what each call answers, given
  everything that has happened so far. \<open>None\<close> and \<open>False\<close> mean that the call raises.

  A run is recorded as the list of its events in the order they happen: bus operations,
  the 50 ms sleep of \<open>wait_for_free\<close>, and the lines printed. The texts printed by
  \<open>logging\<close> and \<open>print\<close> are kept as constructors carrying the interpolated values.
\<close>

record camera =
  bus :: nat
  i2c_address :: nat

datatype Level = WARNING | ERROR | INFO

datatype message =
    OpenFailure nat
  | DeviceID nat
  | DeviceVersion nat
  | SensorID nat
  | ISPFWVersion string
  | SoftwareFWVersion string
  | PixelFormatOrder string string nat
  | PixelFormat string nat
  | ResolutionInfo nat nat nat
  | ControlInfo nat string nat nat nat

datatype out_line =
    Log Level message
  | EnumFmtHeader
  | TypeHeader
  | FormatEntry nat string string
  | SizeDiscrete nat nat
  | IntervalDiscrete nat

datatype event =
    I2COpen nat bool
  | Write camera nat nat
  | Read camera nat nat
  | Sleep
  | Print out_line

record world =
  i2c_open :: "event list \<Rightarrow> nat \<Rightarrow> bool"
  read_16_32 :: "event list \<Rightarrow> nat \<Rightarrow> nat \<Rightarrow> nat \<Rightarrow> nat option"
  write_16_32 :: "event list \<Rightarrow> nat \<Rightarrow> nat \<Rightarrow> nat \<Rightarrow> nat \<Rightarrow> bool"

datatype error = RuntimeError nat | TransportError

text \<open>
  The outcome of a call: it raises, or it returns a value; either way with the events so
  far. A function with a \<open>while True\<close> loop has an \<open>outcome option\<close>, and \<open>None\<close> means
  that the call never returns.
\<close>

datatype 'a outcome = Raise error "event list" | Return 'a "event list"

definition PivarietyCamera :: "world \<Rightarrow> nat \<Rightarrow> event list \<Rightarrow> camera outcome" where
  "PivarietyCamera w b t =
     (if i2c_open w t b then Return \<lparr>bus = b, i2c_address = 0x0C\<rparr> (t @ [I2COpen b True])
      else Raise (RuntimeError b) (t @ [I2COpen b False]))"

definition readReg :: "world \<Rightarrow> camera \<Rightarrow> nat \<Rightarrow> event list \<Rightarrow> nat outcome" where
  "readReg w cam register t =
     (case read_16_32 w t (bus cam) (i2c_address cam) register of
        None \<Rightarrow> Raise TransportError t
      | Some v \<Rightarrow> Return v (t @ [Read cam register v]))"

definition writeReg :: "world \<Rightarrow> camera \<Rightarrow> nat \<Rightarrow> nat \<Rightarrow> event list \<Rightarrow> unit outcome" where
  "writeReg w cam register val t =
     (if write_16_32 w t (bus cam) (i2c_address cam) register val
      then Return () (t @ [Write cam register val])
      else Raise TransportError t)"

definition wait_for_free :: "event list \<Rightarrow> event list" where
  "wait_for_free t = t @ [Sleep]"

definition logging :: "message \<Rightarrow> Level \<Rightarrow> event list \<Rightarrow> event list" where
  "logging txt level t = t @ [Print (Log level txt)]"

section \<open>Resolution enumeration\<close>

record resolution =
  index :: nat
  width :: nat
  height :: nat
  max_fps :: "nat option"

text \<open>The inner \<open>while True\<close> loop of \<open>enum_resolutions\<close>, looking for the Framerate control.\<close>

partial_function (option) enum_resolutions_fps_loop ::
  "world \<Rightarrow> camera \<Rightarrow> nat \<Rightarrow> event list \<Rightarrow> nat option outcome option" where
  "enum_resolutions_fps_loop w cam ctrl_index t =
     (case writeReg w cam CTRL_INDEX_REG ctrl_index t of
        Raise e t1 \<Rightarrow> Some (Raise e t1)
      | Return _ t1 \<Rightarrow>
     (case readReg w cam CTRL_ID_REG t1 of
        Raise e t2 \<Rightarrow> Some (Raise e t2)
      | Return ctrl_id t2 \<Rightarrow>
        if ctrl_id = NO_DATA_AVAILABLE then Some (Return None t2)
        else if ctrl_id = 0x981906 then
          (case readReg w cam CTRL_MAX_REG t2 of
             Raise e t3 \<Rightarrow> Some (Raise e t3)
           | Return m t3 \<Rightarrow> Some (Return (Some m) t3))
        else enum_resolutions_fps_loop w cam (ctrl_index + 1) t2))"

text \<open>
  The body of the outer loop after the sentinel test: width, height, the Framerate scan,
  and the dictionary appended to \<open>resolutions\<close>.
\<close>

definition enum_resolutions_entry ::
  "world \<Rightarrow> camera \<Rightarrow> nat \<Rightarrow> event list \<Rightarrow> resolution outcome option" where
  "enum_resolutions_entry w cam idx t =
     (case readReg w cam FORMAT_WIDTH_REG t of
        Raise e t1 \<Rightarrow> Some (Raise e t1)
      | Return wd t1 \<Rightarrow>
     (case readReg w cam FORMAT_HEIGHT_REG t1 of
        Raise e t2 \<Rightarrow> Some (Raise e t2)
      | Return ht t2 \<Rightarrow>
     (case writeReg w cam CTRL_INDEX_REG 0 t2 of
        Raise e t3 \<Rightarrow> Some (Raise e t3)
      | Return _ t3 \<Rightarrow>
     (case enum_resolutions_fps_loop w cam 0 t3 of
        None \<Rightarrow> None
      | Some (Raise e t4) \<Rightarrow> Some (Raise e t4)
      | Some (Return fps t4) \<Rightarrow>
          Some (Return \<lparr>index = idx, width = wd, height = ht, max_fps = fps\<rparr> t4)))))"

partial_function (option) enum_resolutions_loop ::
  "world \<Rightarrow> camera \<Rightarrow> nat \<Rightarrow> resolution list \<Rightarrow> event list
     \<Rightarrow> resolution list outcome option" where
  "enum_resolutions_loop w cam idx resolutions t =
     (case writeReg w cam RESOLUTION_INDEX_REG idx t of
        Raise e t1 \<Rightarrow> Some (Raise e t1)
      | Return _ t1 \<Rightarrow>
     (case readReg w cam RESOLUTION_INDEX_REG t1 of
        Raise e t2 \<Rightarrow> Some (Raise e t2)
      | Return val t2 \<Rightarrow>
        if val = NO_DATA_AVAILABLE then Some (Return resolutions t2)
        else
          (case enum_resolutions_entry w cam idx t2 of
             None \<Rightarrow> None
           | Some (Raise e t3) \<Rightarrow> Some (Raise e t3)
           | Some (Return res t3) \<Rightarrow>
               enum_resolutions_loop w cam (idx + 1) (resolutions @ [res]) t3)))"

definition enum_resolutions :: "world \<Rightarrow> camera \<Rightarrow> event list \<Rightarrow> resolution list outcome option"
  where "enum_resolutions w cam t = enum_resolutions_loop w cam 0 [] t"

section \<open>Format listing\<close>

text \<open>The lines printed for one resolution by the \<open>for\<close> loop of \<open>list_formats\<close>.\<close>

definition list_formats_entry :: "string \<Rightarrow> string \<Rightarrow> bool \<Rightarrow> resolution \<Rightarrow> event list" where
  "list_formats_entry fourcc pix_name extended res =
     [Print (FormatEntry (index res) fourcc pix_name)]
     @ (if extended then
          [Print (SizeDiscrete (width res) (height res))]
          @ (case max_fps res of
               None \<Rightarrow> []
             | Some fps \<Rightarrow> if fps \<noteq> 0 then [Print (IntervalDiscrete fps)] else [])
        else [])"

definition list_formats :: "world \<Rightarrow> camera \<Rightarrow> bool \<Rightarrow> event list \<Rightarrow> unit outcome option" where
  "list_formats w cam extended t =
     (case writeReg w cam PIXFORMAT_INDEX_REG 0 t of
        Raise e t1 \<Rightarrow> Some (Raise e t1)
      | Return _ t1 \<Rightarrow>
     (case readReg w cam PIXFORMAT_TYPE_REG t1 of
        Raise e t2 \<Rightarrow> Some (Raise e t2)
      | Return pix_type t2 \<Rightarrow>
     (case readReg w cam PIXFORMAT_ORDER_REG t2 of
        Raise e t3 \<Rightarrow> Some (Raise e t3)
      | Return pix_order t3 \<Rightarrow>
     (let pix_name = dict_get pix_type_map pix_type ''Unknown'';
          fourcc = fourcc_of pix_type pix_order
      in case enum_resolutions w cam t3 of
           None \<Rightarrow> None
         | Some (Raise e t4) \<Rightarrow> Some (Raise e t4)
         | Some (Return resolutions t4) \<Rightarrow>
             Some (Return ()
               (t4 @ [Print EnumFmtHeader, Print TypeHeader]
                @ concat (map (list_formats_entry fourcc pix_name extended) resolutions)))))))"

section \<open>Software version string\<close>

text \<open>The \<open>for i in range(version_length)\<close> loop, over the list of the indices left.\<close>

fun get_software_fw_version_loop ::
  "world \<Rightarrow> camera \<Rightarrow> nat list \<Rightarrow> string \<Rightarrow> event list \<Rightarrow> string outcome" where
  "get_software_fw_version_loop w cam [] version t = Return version t"
| "get_software_fw_version_loop w cam (i # is) version t =
     (case writeReg w cam SOFT_VERSION_INDEX_REG i t of
        Raise e t1 \<Rightarrow> Raise e t1
      | Return _ t1 \<Rightarrow>
     (case readReg w cam SOFT_VERSION_REG t1 of
        Raise e t2 \<Rightarrow> Raise e t2
      | Return ch t2 \<Rightarrow>
        if ch > 255 then get_software_fw_version_loop w cam is version t2
        else get_software_fw_version_loop w cam is (version @ [char_of ch]) t2))"

definition get_software_fw_version :: "world \<Rightarrow> camera \<Rightarrow> event list \<Rightarrow> string outcome" where
  "get_software_fw_version w cam t =
     (case readReg w cam SOFT_VERSION_LEN_REG t of
        Raise e t1 \<Rightarrow> Raise e t1
      | Return version_length t1 \<Rightarrow>
        if version_length = NO_DATA_AVAILABLE \<or> version_length > 255 then Return ''None'' t1
        else get_software_fw_version_loop w cam [0..<version_length] [] t1)"

section \<open>The full probe of \<open>main\<close>\<close>

text \<open>The control loop of \<open>main\<close>, run for every resolution.\<close>

partial_function (option) main_controls_loop ::
  "world \<Rightarrow> camera \<Rightarrow> nat \<Rightarrow> event list \<Rightarrow> unit outcome option" where
  "main_controls_loop w cam ctrl_index t =
     (case writeReg w cam CTRL_INDEX_REG ctrl_index t of
        Raise e t1 \<Rightarrow> Some (Raise e t1)
      | Return _ t1 \<Rightarrow>
     (case readReg w cam CTRL_ID_REG t1 of
        Raise e t2 \<Rightarrow> Some (Raise e t2)
      | Return ctrl_id t2 \<Rightarrow>
        if ctrl_id = NO_DATA_AVAILABLE then Some (Return () t2)
        else
     (case writeReg w cam CTRL_VALUE_REG 0 t2 of
        Raise e t3 \<Rightarrow> Some (Raise e t3)
      | Return _ t3 \<Rightarrow>
     (case readReg w cam CTRL_MAX_REG (wait_for_free t3) of
        Raise e t4 \<Rightarrow> Some (Raise e t4)
      | Return max_val t4 \<Rightarrow>
     (case readReg w cam CTRL_MIN_REG t4 of
        Raise e t5 \<Rightarrow> Some (Raise e t5)
      | Return min_val t5 \<Rightarrow>
     (case readReg w cam CTRL_DEF_REG t5 of
        Raise e t6 \<Rightarrow> Some (Raise e t6)
      | Return def_val t6 \<Rightarrow>
          main_controls_loop w cam (ctrl_index + 1)
            (logging (ControlInfo ctrl_id (dict_get ID_map ctrl_id ''Unknown'')
                        max_val min_val def_val) INFO t6)))))))"

text \<open>The \<open>for res in resolutions\<close> loop of \<open>main\<close>.\<close>

fun main_resolutions_loop ::
  "world \<Rightarrow> camera \<Rightarrow> resolution list \<Rightarrow> event list \<Rightarrow> unit outcome option" where
  "main_resolutions_loop w cam [] t = Some (Return () t)"
| "main_resolutions_loop w cam (res # resolutions) t =
     (case main_controls_loop w cam 0
             (logging (ResolutionInfo (index res) (width res) (height res)) INFO t) of
        None \<Rightarrow> None
      | Some (Raise e t1) \<Rightarrow> Some (Raise e t1)
      | Some (Return _ t1) \<Rightarrow> main_resolutions_loop w cam resolutions t1)"

text \<open>
  The text logged for one pixel format: \<open>dtype\<close>, the optional \<open>order\<close>, and the two
  variants of the line under \<open>if order\<close>.
\<close>

definition main_pixformat_message :: "nat \<Rightarrow> nat \<Rightarrow> nat \<Rightarrow> message" where
  "main_pixformat_message pix_type bayer_order lanes =
     (let dtype = dict_get pix_type_map pix_type ''Unknown'';
          order =
            (if pix_type \<in> set [0x2A, 0x2B, 0x2C]
               then Some (dict_get raw_bayer_order bayer_order ''Unknown'')
             else if pix_type \<in> set [0x18, 0x19, 0x1E]
               then Some (dict_get yuv_order bayer_order ''Unknown'')
             else None)
      in case order of
           None \<Rightarrow> PixelFormat dtype lanes
         | Some ord \<Rightarrow>
             if ord \<noteq> [] then PixelFormatOrder dtype ord lanes
             else PixelFormat dtype lanes)"

text \<open>The body of the pixel-format loop after the sentinel test.\<close>

definition main_pixformat_entry :: "world \<Rightarrow> camera \<Rightarrow> event list \<Rightarrow> unit outcome option" where
  "main_pixformat_entry w cam t =
     (case readReg w cam PIXFORMAT_TYPE_REG t of
        Raise e t1 \<Rightarrow> Some (Raise e t1)
      | Return pix_type t1 \<Rightarrow>
     (case readReg w cam PIXFORMAT_ORDER_REG t1 of
        Raise e t2 \<Rightarrow> Some (Raise e t2)
      | Return bayer_order t2 \<Rightarrow>
     (case readReg w cam MIPI_LANES_REG t2 of
        Raise e t3 \<Rightarrow> Some (Raise e t3)
      | Return lanes t3 \<Rightarrow>
     (case enum_resolutions w cam
             (logging (main_pixformat_message pix_type bayer_order lanes) INFO t3) of
        None \<Rightarrow> None
      | Some (Raise e t5) \<Rightarrow> Some (Raise e t5)
      | Some (Return resolutions t5) \<Rightarrow> main_resolutions_loop w cam resolutions t5))))"

partial_function (option) main_pixformat_loop ::
  "world \<Rightarrow> camera \<Rightarrow> nat \<Rightarrow> event list \<Rightarrow> unit outcome option" where
  "main_pixformat_loop w cam pix_index t =
     (case writeReg w cam PIXFORMAT_INDEX_REG pix_index t of
        Raise e t1 \<Rightarrow> Some (Raise e t1)
      | Return _ t1 \<Rightarrow>
     (case readReg w cam PIXFORMAT_INDEX_REG t1 of
        Raise e t2 \<Rightarrow> Some (Raise e t2)
      | Return val t2 \<Rightarrow>
        if val = NO_DATA_AVAILABLE then Some (Return () t2)
        else
          (case main_pixformat_entry w cam t2 of
             None \<Rightarrow> None
           | Some (Raise e t3) \<Rightarrow> Some (Raise e t3)
           | Some (Return _ t3) \<Rightarrow> main_pixformat_loop w cam (pix_index + 1) t3)))"

text \<open>The full info probe of one opened camera (from the identity reads to the final write).\<close>

definition main_full_probe :: "world \<Rightarrow> camera \<Rightarrow> event list \<Rightarrow> unit outcome option" where
  "main_full_probe w cam t =
     (case readReg w cam DEVICE_ID_REG t of
        Raise e t1 \<Rightarrow> Some (Raise e t1)
      | Return device_id t1 \<Rightarrow>
     (case readReg w cam DEVICE_VERSION_REG t1 of
        Raise e t2 \<Rightarrow> Some (Raise e t2)
      | Return device_version t2 \<Rightarrow>
     (case readReg w cam FIRMWARE_SENSOR_ID_REG t2 of
        Raise e t3 \<Rightarrow> Some (Raise e t3)
      | Return sensor_id t3 \<Rightarrow>
     (case readReg w cam UNIQUE_ID_REG t3 of
        Raise e t4 \<Rightarrow> Some (Raise e t4)
      | Return isp_fw_version t4 \<Rightarrow>
     (let t5 = logging (ISPFWVersion (parse_isp_fw_version (int isp_fw_version))) INFO
                (logging (SensorID sensor_id) INFO
                  (logging (DeviceVersion device_version) INFO
                    (logging (DeviceID device_id) INFO t4)))
      in case get_software_fw_version w cam t5 of
           Raise e t6 \<Rightarrow> Some (Raise e t6)
         | Return version t6 \<Rightarrow>
     (case main_pixformat_loop w cam 0 (logging (SoftwareFWVersion version) INFO t6) of
        None \<Rightarrow> None
      | Some (Raise e t7) \<Rightarrow> Some (Raise e t7)
      | Some (Return _ t7) \<Rightarrow>
     (case writeReg w cam PIXFORMAT_INDEX_REG 0 t7 of
        Raise e t8 \<Rightarrow> Some (Raise e t8)
      | Return _ t8 \<Rightarrow> Some (Return () t8))))))))"

text \<open>
  The \<open>for dev in devices_to_probe\<close> loop of \<open>main\<close>. Only the construction of the
  camera object is inside \<open>try\<close>, and only \<open>RuntimeError\<close> is caught there.
\<close>

record dev =
  dev_bus :: nat
  dev_name :: string

fun main_probe_loop ::
  "world \<Rightarrow> bool \<Rightarrow> bool \<Rightarrow> dev list \<Rightarrow> event list \<Rightarrow> unit outcome option" where
  "main_probe_loop w args_list_formats args_list_formats_ext [] t = Some (Return () t)"
| "main_probe_loop w args_list_formats args_list_formats_ext (d # devices_to_probe) t =
     (case PivarietyCamera w (dev_bus d) t of
        Raise e t1 \<Rightarrow>
          (case e of
             RuntimeError b \<Rightarrow>
               main_probe_loop w args_list_formats args_list_formats_ext devices_to_probe
                 (logging (OpenFailure b) ERROR t1)
           | TransportError \<Rightarrow> Some (Raise e t1))
      | Return cam t1 \<Rightarrow>
          (case (if args_list_formats \<or> args_list_formats_ext
                 then list_formats w cam args_list_formats_ext t1
                 else main_full_probe w cam t1) of
             None \<Rightarrow> None
           | Some (Raise e t2) \<Rightarrow> Some (Raise e t2)
           | Some (Return _ t2) \<Rightarrow>
               main_probe_loop w args_list_formats args_list_formats_ext devices_to_probe t2))"

section \<open>Describing transports and runs\<close>

text \<open>
  \<open>cursor cam r t\<close> is the value most recently written to register \<open>r\<close> of the camera
  in the run \<open>t\<close>: for an index register, the entry the device currently exposes.
\<close>

fun cursor :: "camera \<Rightarrow> nat \<Rightarrow> event list \<Rightarrow> nat option" where
  "cursor cam r [] = None"
| "cursor cam r (e # es) =
     (case cursor cam r es of
        Some v \<Rightarrow> Some v
      | None \<Rightarrow> (case e of Write c r' v \<Rightarrow> if c = cam \<and> r' = r then Some v else None
                 | _ \<Rightarrow> None))"

text \<open>The bus operations of the software-version loop for a list of (index, code) pairs.\<close>

definition soft_version_events :: "camera \<Rightarrow> (nat \<times> nat) list \<Rightarrow> event list" where
  "soft_version_events cam ics =
     concat (map (\<lambda>(i, c). [Write cam SOFT_VERSION_INDEX_REG i, Read cam SOFT_VERSION_REG c]) ics)"

section \<open>Concrete transports\<close>

definition cam0 :: camera where "cam0 = \<lparr>bus = 1, i2c_address = 0x0C\<rparr>"

text \<open>
  A transport whose software version has the given declared length; the character code at
  index 3 is 300, the code at any other index \<open>i\<close> is \<open>65 + i\<close>.
\<close>

definition version_world :: "nat \<Rightarrow> world" where
  "version_world len =
     \<lparr>i2c_open = (\<lambda>t b. True),
      read_16_32 = (\<lambda>t b a r.
         if r = SOFT_VERSION_LEN_REG then Some len
         else if r = SOFT_VERSION_REG then
           (case cursor \<lparr>bus = b, i2c_address = a\<rparr> SOFT_VERSION_INDEX_REG t of
              None \<Rightarrow> None
            | Some i \<Rightarrow> Some (if i = 3 then 300 else 65 + i))
         else Some 0),
      write_16_32 = (\<lambda>t b a r v. True)\<rparr>"


text \<open>A transport on which no read and no write of this camera ever raises.\<close>

definition no_transport_failure :: "world \<Rightarrow> camera \<Rightarrow> bool" where
  "no_transport_failure w cam \<longleftrightarrow>
     (\<forall>h r. read_16_32 w h (bus cam) (i2c_address cam) r \<noteq> None)
     \<and> (\<forall>h r v. write_16_32 w h (bus cam) (i2c_address cam) r v)"

text \<open>
  A transport that exposes \<open>npix\<close> pixel formats, \<open>nres\<close> resolutions and the controls
  with the ids \<open>ctrls\<close>, each list ended by the sentinel, and fixed detail values.
\<close>

definition demo_world :: "nat \<Rightarrow> nat \<Rightarrow> nat list \<Rightarrow> world" where
  "demo_world npix nres ctrls =
     \<lparr>i2c_open = (\<lambda>t b. True),
      read_16_32 = (\<lambda>t b a r.
         let cam = \<lparr>bus = b, i2c_address = a\<rparr> in
         if r = PIXFORMAT_INDEX_REG then
           (case cursor cam PIXFORMAT_INDEX_REG t of
              None \<Rightarrow> Some NO_DATA_AVAILABLE
            | Some i \<Rightarrow> Some (if i < npix then i else NO_DATA_AVAILABLE))
         else if r = RESOLUTION_INDEX_REG then
           (case cursor cam RESOLUTION_INDEX_REG t of
              None \<Rightarrow> Some NO_DATA_AVAILABLE
            | Some i \<Rightarrow> Some (if i < nres then i else NO_DATA_AVAILABLE))
         else if r = CTRL_ID_REG then
           (case cursor cam CTRL_INDEX_REG t of
              None \<Rightarrow> Some NO_DATA_AVAILABLE
            | Some i \<Rightarrow> Some (if i < length ctrls then ctrls ! i else NO_DATA_AVAILABLE))
         else if r = PIXFORMAT_TYPE_REG then Some 0x2B
         else if r = PIXFORMAT_ORDER_REG then Some 3
         else if r = MIPI_LANES_REG then Some 2
         else if r = FORMAT_WIDTH_REG then Some 640
         else if r = FORMAT_HEIGHT_REG then Some 480
         else if r = CTRL_MAX_REG then Some 30
         else if r = CTRL_MIN_REG then Some 1
         else if r = CTRL_DEF_REG then Some 15
         else Some 0),
      write_16_32 = (\<lambda>t b a r v. True)\<rparr>"

text \<open>The events of a run, whichever way it ended.\<close>

fun trace_of :: "'a outcome \<Rightarrow> event list" where
  "trace_of (Raise e t) = t"
| "trace_of (Return v t) = t"

text \<open>
  Two transports agree at index \<open>i\<close> of the index register \<open>ir\<close>: as long as \<open>i\<close> is the
  value last written to \<open>ir\<close>, every read and every write of the camera is answered alike.
\<close>

definition agree_at :: "camera \<Rightarrow> nat \<Rightarrow> nat \<Rightarrow> world \<Rightarrow> world \<Rightarrow> bool" where
  "agree_at cam ir i w w' \<longleftrightarrow>
     (\<forall>h. cursor cam ir h = Some i \<longrightarrow>
        (\<forall>r. read_16_32 w' h (bus cam) (i2c_address cam) r
               = read_16_32 w h (bus cam) (i2c_address cam) r)
        \<and> (\<forall>r v. write_16_32 w' h (bus cam) (i2c_address cam) r v
               = write_16_32 w h (bus cam) (i2c_address cam) r v))"

text \<open>A transport on which every register always reads 0: no list ever ends.\<close>

definition stuck_world :: world where
  "stuck_world =
     \<lparr>i2c_open = (\<lambda>t b. True),
      read_16_32 = (\<lambda>t b a r. Some 0),
      write_16_32 = (\<lambda>t b a r v. True)\<rparr>"

text \<open>
  The timing contract of control enumeration, checked on a run: a read of the minimum,
  maximum or default register of the camera is allowed only when, since the control was
  selected by a write of \<open>CTRL_INDEX_REG\<close>, the value register \<open>CTRL_VALUE_REG\<close> has been
  written to 0 (state 1) and a sleep has followed (state 2).
\<close>

fun bounds_settled :: "camera \<Rightarrow> nat \<Rightarrow> event list \<Rightarrow> bool" where
  "bounds_settled cam s [] = True"
| "bounds_settled cam s (e # es) =
     (case e of
        Write c r v \<Rightarrow>
          if c = cam \<and> r = CTRL_INDEX_REG then bounds_settled cam 0 es
          else if c = cam \<and> r = CTRL_VALUE_REG \<and> v = 0 then bounds_settled cam 1 es
          else bounds_settled cam s es
      | Sleep \<Rightarrow> bounds_settled cam (if s = 1 then 2 else s) es
      | Read c r v \<Rightarrow>
          if c = cam \<and> (r = CTRL_MIN_REG \<or> r = CTRL_MAX_REG \<or> r = CTRL_DEF_REG)
          then s = 2 \<and> bounds_settled cam s es
          else bounds_settled cam s es
      | _ \<Rightarrow> bounds_settled cam s es)"

text \<open>
  A transport with one resolution, at index 0, on which every other register reads the
  sentinel.
\<close>

definition sentinel_detail_world :: world where
  "sentinel_detail_world =
     \<lparr>i2c_open = (\<lambda>t b. True),
      read_16_32 = (\<lambda>t b a r.
         if r = RESOLUTION_INDEX_REG
              \<and> cursor \<lparr>bus = b, i2c_address = a\<rparr> RESOLUTION_INDEX_REG t = Some 0
         then Some 0 else Some NO_DATA_AVAILABLE),
      write_16_32 = (\<lambda>t b a r v. True)\<rparr>"

text \<open>
  The events that resolution and control enumeration may add to a run: operations on the
  resolution and control registers, the sleep, and the log lines of a resolution and of a
  control.
\<close>

fun resolution_level :: "event \<Rightarrow> bool" where
  "resolution_level (Write c r v) =
     (r \<in> {RESOLUTION_INDEX_REG, CTRL_INDEX_REG, CTRL_VALUE_REG})"
| "resolution_level (Read c r v) =
     (r \<in> {RESOLUTION_INDEX_REG, FORMAT_WIDTH_REG, FORMAT_HEIGHT_REG,
            CTRL_ID_REG, CTRL_MIN_REG, CTRL_MAX_REG, CTRL_DEF_REG})"
| "resolution_level Sleep = True"
| "resolution_level (Print (Log l (ResolutionInfo i x y))) = True"
| "resolution_level (Print (Log l (ControlInfo i n a b c))) = True"
| "resolution_level _ = False"


text \<open>The run \<open>t'\<close> continues the run \<open>t\<close>, and every event added satisfies \<open>P\<close>.\<close>

definition adds_only :: "(event \<Rightarrow> bool) \<Rightarrow> event list \<Rightarrow> event list \<Rightarrow> bool" where
  "adds_only P t t' \<longleftrightarrow> (\<exists>s. t' = t @ s \<and> list_all P s)"

(*VERIFICATION*)

section \<open>The firmware version decoder\<close>

lemma parse_isp_fw_version_fields:
  "parse_isp_fw_version v =
     ''v'' @ py_format 16 0 (spec_fw_idHigh v) @ ''.'' @ py_format 16 2 (spec_fw_idLow v)
     @ '' 20'' @ py_format 10 2 (spec_fw_year v) @ ''/''
     @ py_format 10 2 (spec_fw_month v) @ ''/'' @ py_format 10 2 (spec_fw_day v)"
  by (simp add: parse_isp_fw_version_def spec_fw_idHigh_def spec_fw_idLow_def spec_fw_id_def
      spec_fw_year_def spec_fw_month_def spec_fw_day_def spec_fw_date_def Let_def drop_bit_and)

lemma digits_of_10_small: "n < 10 \<Longrightarrow> digits_of 10 n = [digit_char n]"
  by (simp add: digits_of.simps)

lemma digits_of_10_step:
  "10 \<le> n \<Longrightarrow> digits_of 10 n = digits_of 10 (n div 10) @ [digit_char (n mod 10)]"
  by (subst digits_of.simps) simp

lemma digits_of_2000:
  assumes n: "n < 100"
  shows "digits_of 10 (2000 + n) = ''20'' @ [digit_char (n div 10), digit_char (n mod 10)]"
proof -
  define m where "m = n div 10"
  have m: "m < 10" using n by (simp add: m_def)
  have a1: "(2000 + n) div 10 = 200 + m"
    using div_mult_self1 [of 10 n 200] by (simp add: m_def add.commute)
  have a2: "(2000 + n) mod 10 = n mod 10"
    using mod_mult_self1 [of n 200 10] by (simp add: add.commute)
  have b1: "(200 + m) div 10 = 20"
    using div_mult_self1 [of 10 m 20] m by (simp add: add.commute)
  have b2: "(200 + m) mod 10 = m"
    using mod_mult_self1 [of m 20 10] m by (simp add: add.commute)
  have c: "digits_of 10 20 = ''20''" by code_simp
  have s1: "digits_of 10 (2000 + n) = digits_of 10 (200 + m) @ [digit_char (n mod 10)]"
    using digits_of_10_step [of "2000 + n"] by (simp add: a1 a2)
  have s2: "digits_of 10 (200 + m) = digits_of 10 20 @ [digit_char m]"
    using digits_of_10_step [of "200 + m"] by (simp add: b1 b2)
  show ?thesis unfolding s1 s2 c by (simp add: m_def)
qed

lemma digits_of_two:
  assumes n: "n < 100"
  shows "replicate (2 - length (digits_of 10 n)) (CHR ''0'') @ digits_of 10 n
      = [digit_char (n div 10), digit_char (n mod 10)]"
proof (cases "n < 10")
  case True
  then show ?thesis by (simp add: digits_of_10_small digit_char_def)
next
  case False
  have "n div 10 < 10" using n by simp
  then have "digits_of 10 (n div 10) = [digit_char (n div 10)]" by (rule digits_of_10_small)
  with False digits_of_10_step [of n] show ?thesis by simp
qed

lemma two_digit_year:
  assumes "0 \<le> y" "y < 100"
  shows "''20'' @ py_format 10 2 y = py_format 10 0 (2000 + y)"
proof -
  define n where "n = nat y"
  have y: "y = int n" and n: "n < 100" using assms by (simp_all add: n_def)
  have e: "nat \<bar>2000 + int n\<bar> = 2000 + n" by simp
  have e2: "nat \<bar>int n\<bar> = n" by simp
  show ?thesis
    unfolding py_format_def y Let_def e e2
    by (simp add: digits_of_2000 [OF n] digits_of_two [OF n])
qed

lemma spec_fw_year_nonneg: "0 \<le> spec_fw_year v"
  by (simp add: spec_fw_year_def spec_fw_date_def)

text \<open>
  C3, as stated, fails: the year field has seven bits, and for a year of 100 or more the
  code prints the two characters \<open>20\<close> followed by a three-digit year, not the number
  \<open>2000 + year\<close>. For \<open>0x0102C843\<close> (year 100, month 2, day 3) the code returns
  \<open>v1.02 20100/02/03\<close>, the specified format gives \<open>v1.02 2100/02/03\<close>.
\<close>

theorem C3_counterexample:
  "parse_isp_fw_version 0x0102C843 \<noteq> spec_fw_version 0x0102C843"
  by code_simp

text \<open>
  C3, amended: for every input \<open>v\<close> the decoder computes the fields
  \<open>id = (v >> 16) & 0xFFFF\<close>, \<open>idHigh = (id >> 8) & 0xFF\<close>, \<open>idLow = id & 0xFF\<close>,
  \<open>date = v & 0xFFFF\<close>, \<open>year = date >> 9\<close>, \<open>month = (date >> 5) & 0xF\<close>,
  \<open>day = date & 0x1F\<close> and returns
  \<open>v{idHigh:x}.{idLow:02x} 20{year:02d}/{month:02d}/{day:02d}\<close>; this is the
  specified string with \<open>2000 + year\<close> whenever \<open>year < 100\<close>; and \<open>0x01020A43\<close> yields
  \<open>v1.02 2005/02/03\<close>.
\<close>

theorem C3_fw_version_amended:
  "parse_isp_fw_version v =
     ''v'' @ py_format 16 0 (spec_fw_idHigh v) @ ''.'' @ py_format 16 2 (spec_fw_idLow v)
     @ '' 20'' @ py_format 10 2 (spec_fw_year v) @ ''/''
     @ py_format 10 2 (spec_fw_month v) @ ''/'' @ py_format 10 2 (spec_fw_day v)
   \<and> (spec_fw_year v < 100 \<longrightarrow> parse_isp_fw_version v = spec_fw_version v)
   \<and> parse_isp_fw_version 0x01020A43 = ''v1.02 2005/02/03''"
proof (intro conjI impI)
  show "parse_isp_fw_version 0x01020A43 = ''v1.02 2005/02/03''" by code_simp
next
  assume "spec_fw_year v < 100"
  from two_digit_year [OF spec_fw_year_nonneg this]
  show "parse_isp_fw_version v = spec_fw_version v"
    by (simp add: parse_isp_fw_version_fields spec_fw_version_def)
qed (rule parse_isp_fw_version_fields)

theorem C3_fw_version_witness:
  "spec_fw_year 0x01020A43 < 100
   \<and> parse_isp_fw_version 0x01020A43 = spec_fw_version 0x01020A43
   \<and> spec_fw_version 0x01020A43 = ''v1.02 2005/02/03''"
proof -
  have h: "spec_fw_year 0x01020A43 < 100" by code_simp
  have s: "spec_fw_version 0x01020A43 = ''v1.02 2005/02/03''" by code_simp
  from C3_fw_version_amended [of "0x01020A43"]
  have "spec_fw_year 0x01020A43 < 100
      \<longrightarrow> parse_isp_fw_version 0x01020A43 = spec_fw_version 0x01020A43"
    by (elim conjE)
  from this h have "parse_isp_fw_version 0x01020A43 = spec_fw_version 0x01020A43"
    by (rule mp)
  with h s show ?thesis by (intro conjI)
qed

section \<open>FOURCC derivation\<close>

text \<open>
  C6: for every pixel-type code and order code, the FOURCC is the Bayer-table entry of the
  order for a RAW-class type (\<open>RGGB\<close> for an unmapped order), the YUV-table entry for a
  YUV-class type (\<open>YUYV\<close> for an unmapped order), \<open>MJPG\<close> for the JPEG type, and
  \<open>UNKN\<close> for every other type code.
\<close>

theorem C6_fourcc:
  "(pix_type \<in> {0x2A, 0x2B, 0x2C} \<longrightarrow>
      fourcc_of pix_type pix_order =
        (if pix_order = 0 then ''BGGR'' else if pix_order = 1 then ''GBRG''
         else if pix_order = 2 then ''GRBG'' else if pix_order = 3 then ''RGGB''
         else if pix_order = 4 then ''MONO'' else ''RGGB''))
   \<and> (pix_type \<in> {0x18, 0x19, 0x1E} \<longrightarrow>
      fourcc_of pix_type pix_order =
        (if pix_order = 0 then ''YUYV'' else if pix_order = 1 then ''YVYU''
         else if pix_order = 2 then ''UYVY'' else if pix_order = 3 then ''VYUY''
         else ''YUYV''))
   \<and> (pix_type = 0x30 \<longrightarrow> fourcc_of pix_type pix_order = ''MJPG'')
   \<and> (pix_type \<notin> {0x2A, 0x2B, 0x2C, 0x18, 0x19, 0x1E, 0x30} \<longrightarrow>
      fourcc_of pix_type pix_order = ''UNKN'')"
  by (auto simp add: fourcc_of_def dict_get_def raw_bayer_order_def yuv_order_def)

theorem C6_fourcc_witness:
  "fourcc_of 0x2B 7 = ''RGGB'' \<and> fourcc_of 0x2C 4 = ''MONO'' \<and> fourcc_of 0x1E 9 = ''YUYV''
   \<and> fourcc_of 0x18 2 = ''UYVY'' \<and> fourcc_of 0x30 1 = ''MJPG'' \<and> fourcc_of 0x31 0 = ''UNKN''"
  using C6_fourcc [of "0x2B" 7] C6_fourcc [of "0x2C" 4] C6_fourcc [of "0x1E" 9]
    C6_fourcc [of "0x18" 2] C6_fourcc [of "0x30" 1] C6_fourcc [of "0x31" 0]
  by simp

section \<open>Basic facts\<close>

lemma reg_values:
  "DEVICE_VERSION_REG = 0x101" "SENSOR_ID_REG = 0x102" "DEVICE_ID_REG = 0x103"
  "FIRMWARE_SENSOR_ID_REG = 0x105" "UNIQUE_ID_REG = 0x106"
  "SOFT_VERSION_LEN_REG = 0x1F0" "SOFT_VERSION_INDEX_REG = 0x1F1" "SOFT_VERSION_REG = 0x1F2"
  "PIXFORMAT_INDEX_REG = 0x200" "PIXFORMAT_TYPE_REG = 0x201" "PIXFORMAT_ORDER_REG = 0x202"
  "MIPI_LANES_REG = 0x203" "RESOLUTION_INDEX_REG = 0x300" "FORMAT_WIDTH_REG = 0x301"
  "FORMAT_HEIGHT_REG = 0x302" "CTRL_INDEX_REG = 0x400" "CTRL_ID_REG = 0x401"
  "CTRL_MIN_REG = 0x402" "CTRL_MAX_REG = 0x403" "CTRL_DEF_REG = 0x405" "CTRL_VALUE_REG = 0x406"
  "NO_DATA_AVAILABLE = 0xFFFFFFFE"
  by (simp_all add: DEVICE_VERSION_REG_def SENSOR_ID_REG_def DEVICE_ID_REG_def
      FIRMWARE_SENSOR_ID_REG_def UNIQUE_ID_REG_def SOFT_VERSION_LEN_REG_def
      SOFT_VERSION_INDEX_REG_def SOFT_VERSION_REG_def PIXFORMAT_INDEX_REG_def
      PIXFORMAT_TYPE_REG_def PIXFORMAT_ORDER_REG_def MIPI_LANES_REG_def
      RESOLUTION_INDEX_REG_def FORMAT_WIDTH_REG_def FORMAT_HEIGHT_REG_def CTRL_INDEX_REG_def
      CTRL_ID_REG_def CTRL_MIN_REG_def CTRL_MAX_REG_def CTRL_DEF_REG_def CTRL_VALUE_REG_def
      NO_DATA_AVAILABLE_def DEVICE_REG_BASE_def PIXFORMAT_REG_BASE_def FORMAT_REG_BASE_def
      CTRL_REG_BASE_def)

lemma writeReg_Return:
  "writeReg w cam r v t = Return u t1 \<longleftrightarrow>
     write_16_32 w t (bus cam) (i2c_address cam) r v \<and> t1 = t @ [Write cam r v]"
  by (auto simp add: writeReg_def)

lemma writeReg_Raise:
  "writeReg w cam r v t = Raise e t1 \<longleftrightarrow>
     \<not> write_16_32 w t (bus cam) (i2c_address cam) r v \<and> e = TransportError \<and> t1 = t"
  by (auto simp add: writeReg_def)

lemma readReg_Return:
  "readReg w cam r t = Return v t1 \<longleftrightarrow>
     read_16_32 w t (bus cam) (i2c_address cam) r = Some v \<and> t1 = t @ [Read cam r v]"
  by (auto simp add: readReg_def split: option.splits)

lemma readReg_Raise:
  "readReg w cam r t = Raise e t1 \<longleftrightarrow>
     read_16_32 w t (bus cam) (i2c_address cam) r = None \<and> e = TransportError \<and> t1 = t"
  by (auto simp add: readReg_def split: option.splits)

section \<open>The software version string\<close>

lemma get_software_fw_version_loop_Return:
  "get_software_fw_version_loop w cam is version t = Return s t' \<Longrightarrow>
   \<exists>codes. length codes = length is
     \<and> t' = t @ soft_version_events cam (zip is codes)
     \<and> s = version @ map char_of (filter (\<lambda>c. c \<le> 255) codes)"
proof (induction "is" arbitrary: version t)
  case Nil
  then show ?case by (simp add: soft_version_events_def)
next
  case (Cons i "is")
  from Cons.prems obtain u t1 where w: "writeReg w cam SOFT_VERSION_INDEX_REG i t = Return u t1"
    by (cases "writeReg w cam SOFT_VERSION_INDEX_REG i t") simp_all
  from Cons.prems w obtain ch t2 where r: "readReg w cam SOFT_VERSION_REG t1 = Return ch t2"
    by (cases "readReg w cam SOFT_VERSION_REG t1") simp_all
  have t2: "t2 = t @ [Write cam SOFT_VERSION_INDEX_REG i, Read cam SOFT_VERSION_REG ch]"
    using w r by (simp add: writeReg_Return readReg_Return)
  let ?v = "if ch > 255 then version else version @ [char_of ch]"
  from Cons.prems w r have "get_software_fw_version_loop w cam is ?v t2 = Return s t'"
    by (simp split: if_splits)
  from Cons.IH [OF this] obtain codes where c: "length codes = length is"
    "t' = t2 @ soft_version_events cam (zip is codes)"
    "s = ?v @ map char_of (filter (\<lambda>c. c \<le> 255) codes)" by blast
  show ?case
    by (rule exI [of _ "ch # codes"]) (use c t2 in \<open>simp add: soft_version_events_def\<close>)
qed

lemma version_world_5_run: "get_software_fw_version (version_world 5) cam0 []
   = Return ''ABCE'' ([Read cam0 SOFT_VERSION_LEN_REG 5,
      Write cam0 SOFT_VERSION_INDEX_REG 0, Read cam0 SOFT_VERSION_REG 65,
      Write cam0 SOFT_VERSION_INDEX_REG 1, Read cam0 SOFT_VERSION_REG 66,
      Write cam0 SOFT_VERSION_INDEX_REG 2, Read cam0 SOFT_VERSION_REG 67,
      Write cam0 SOFT_VERSION_INDEX_REG 3, Read cam0 SOFT_VERSION_REG 300,
      Write cam0 SOFT_VERSION_INDEX_REG 4, Read cam0 SOFT_VERSION_REG 69])"
  by (simp add: get_software_fw_version_def readReg_def writeReg_def version_world_def cam0_def
      reg_values upt_conv_Cons char_of_def bit_simps)

text \<open>
  C7: when the length register reads the sentinel or a value above 255, the decode
  returns \<open>None\<close> (the string) after that single read. Otherwise every returning decode
  has written the indices \<open>0 .. length - 1\<close> to the index register in order, read one
  character code after each write, and returns the codes that are at most 255 as
  characters, in order: its length is the declared length minus the number of codes above
  255, and with declared length 5 and the only code above 255 being a 300 at index 3, the
  string has length 4.
\<close>

theorem C7_software_version:
  "read_16_32 w t (bus cam) (i2c_address cam) SOFT_VERSION_LEN_REG = Some len \<longrightarrow>
   (len = NO_DATA_AVAILABLE \<or> len > 255 \<longrightarrow>
      get_software_fw_version w cam t
        = Return ''None'' (t @ [Read cam SOFT_VERSION_LEN_REG len]))
   \<and> (\<not> (len = NO_DATA_AVAILABLE \<or> len > 255) \<longrightarrow>
        get_software_fw_version w cam t = Return s t' \<longrightarrow>
        (\<exists>codes. length codes = len
           \<and> t' = t @ Read cam SOFT_VERSION_LEN_REG len
                    # soft_version_events cam (zip [0..<len] codes)
           \<and> s = map char_of (filter (\<lambda>c. c \<le> 255) codes)
           \<and> length s + length (filter (\<lambda>c. c > 255) codes) = len
           \<and> (len = 5 \<and> codes ! 3 = 300 \<and> (\<forall>i<5. i \<noteq> 3 \<longrightarrow> codes ! i \<le> 255)
                \<longrightarrow> length s = 4)))"
proof (intro impI conjI)
  assume r: "read_16_32 w t (bus cam) (i2c_address cam) SOFT_VERSION_LEN_REG = Some len"
    and "len = NO_DATA_AVAILABLE \<or> len > 255"
  then show "get_software_fw_version w cam t
        = Return ''None'' (t @ [Read cam SOFT_VERSION_LEN_REG len])"
    by (simp add: get_software_fw_version_def readReg_def)
next
  assume r: "read_16_32 w t (bus cam) (i2c_address cam) SOFT_VERSION_LEN_REG = Some len"
    and n: "\<not> (len = NO_DATA_AVAILABLE \<or> len > 255)"
    and g: "get_software_fw_version w cam t = Return s t'"
  let ?t1 = "t @ [Read cam SOFT_VERSION_LEN_REG len]"
  from r n g have "get_software_fw_version_loop w cam [0..<len] [] ?t1 = Return s t'"
    by (simp add: get_software_fw_version_def readReg_def)
  from get_software_fw_version_loop_Return [OF this]
  obtain codes where c: "length codes = len"
    "t' = ?t1 @ soft_version_events cam (zip [0..<len] codes)"
    "s = map char_of (filter (\<lambda>c. c \<le> 255) codes)" by auto
  have cnt: "length s + length (filter (\<lambda>c. c > 255) codes) = len"
    using sum_length_filter_compl [of "\<lambda>c. c \<le> 255" codes] c(1,3)
    by (simp add: not_le)
  have ex: "length s = 4"
    if h: "len = 5 \<and> codes ! 3 = 300 \<and> (\<forall>i<5. i \<noteq> 3 \<longrightarrow> codes ! i \<le> 255)"
  proof -
    from c(1) h obtain c0 c1 c2 c3 c4 where l: "codes = [c0, c1, c2, c3, c4]"
      by (auto simp add: eval_nat_numeral length_Suc_conv)
    from h l have "c3 = 300" "c0 \<le> 255" "c1 \<le> 255" "c2 \<le> 255" "c4 \<le> 255"
      by (auto simp add: nth_Cons' dest: spec [of _ 0] spec [of _ 1] spec [of _ 2] spec [of _ 4])
    then show ?thesis by (simp add: c(3) l)
  qed
  show "\<exists>codes. length codes = len
           \<and> t' = t @ Read cam SOFT_VERSION_LEN_REG len
                    # soft_version_events cam (zip [0..<len] codes)
           \<and> s = map char_of (filter (\<lambda>c. c \<le> 255) codes)
           \<and> length s + length (filter (\<lambda>c. c > 255) codes) = len
           \<and> (len = 5 \<and> codes ! 3 = 300 \<and> (\<forall>i<5. i \<noteq> 3 \<longrightarrow> codes ! i \<le> 255)
                \<longrightarrow> length s = 4)"
    by (rule exI [of _ codes]) (use c cnt ex in simp)
qed

lemma version_world_300_len:
  "read_16_32 (version_world 300) [] (bus cam0) (i2c_address cam0) SOFT_VERSION_LEN_REG
     = Some 300"
  by (simp add: version_world_def)

lemma version_world_5_len:
  "read_16_32 (version_world 5) [] (bus cam0) (i2c_address cam0) SOFT_VERSION_LEN_REG = Some 5"
  by (simp add: version_world_def)

theorem C7_software_version_witness:
  "get_software_fw_version (version_world 300) cam0 []
     = Return ''None'' [Read cam0 SOFT_VERSION_LEN_REG 300]
   \<and> get_software_fw_version (version_world 5) cam0 []
     = Return ''ABCE'' ([Read cam0 SOFT_VERSION_LEN_REG 5,
         Write cam0 SOFT_VERSION_INDEX_REG 0, Read cam0 SOFT_VERSION_REG 65,
         Write cam0 SOFT_VERSION_INDEX_REG 1, Read cam0 SOFT_VERSION_REG 66,
         Write cam0 SOFT_VERSION_INDEX_REG 2, Read cam0 SOFT_VERSION_REG 67,
         Write cam0 SOFT_VERSION_INDEX_REG 3, Read cam0 SOFT_VERSION_REG 300,
         Write cam0 SOFT_VERSION_INDEX_REG 4, Read cam0 SOFT_VERSION_REG 69])
   \<and> (\<exists>codes :: nat list. length codes = 5
         \<and> ''ABCE'' = map char_of (filter (\<lambda>c. c \<le> 255) codes)
         \<and> length ''ABCE'' + length (filter (\<lambda>c. c > 255) codes) = 5)"
proof -
  have big: "(300::nat) = NO_DATA_AVAILABLE \<or> (300::nat) > 255" by simp
  have small: "\<not> ((5::nat) = NO_DATA_AVAILABLE \<or> (5::nat) > 255)"
    by (simp add: reg_values)
  note A = C7_software_version [of "version_world 300" "[]" cam0 300, THEN mp,
      OF version_world_300_len, THEN conjunct1, THEN mp, OF big]
  have a: "get_software_fw_version (version_world 300) cam0 []
     = Return ''None'' [Read cam0 SOFT_VERSION_LEN_REG 300]"
    using A by simp
  note B = C7_software_version [of "version_world 5" "[]" cam0 5, THEN mp,
      OF version_world_5_len, THEN conjunct2, THEN mp, OF small, THEN mp,
      OF version_world_5_run]
  from B obtain codes :: "nat list" where "length codes = 5"
         "''ABCE'' = map char_of (filter (\<lambda>c. c \<le> 255) codes)"
         "length ''ABCE'' + length (filter (\<lambda>c. c > 255) codes) = 5"
    by (elim exE conjE)
  then have b: "\<exists>codes :: nat list. length codes = 5
         \<and> ''ABCE'' = map char_of (filter (\<lambda>c. c \<le> 255) codes)
         \<and> length ''ABCE'' + length (filter (\<lambda>c. c > 255) codes) = 5"
    by (intro exI conjI)
  from a version_world_5_run b show ?thesis by (intro conjI)
qed

section \<open>The Framerate scan of resolution enumeration\<close>

lemma cursor_append:
  "cursor cam r (t @ [e]) =
     (case e of Write c r' v \<Rightarrow> if c = cam \<and> r' = r then Some v else cursor cam r t
      | _ \<Rightarrow> cursor cam r t)"
  by (induction t) (auto split: option.splits event.splits)

lemma cursor_Write [simp]:
  "cursor cam r (t @ [Write c r' v]) = (if c = cam \<and> r' = r then Some v else cursor cam r t)"
  by (simp add: cursor_append)

lemma cursor_other [simp]:
  "cursor cam r (t @ [Read c r' v]) = cursor cam r t"
  "cursor cam r (t @ [Sleep]) = cursor cam r t"
  "cursor cam r (t @ [Print l]) = cursor cam r t"
  "cursor cam r (t @ [I2COpen b ok]) = cursor cam r t"
  by (simp_all add: cursor_append)







lemma camera_eta [simp]: "\<lparr>bus = bus cam, i2c_address = i2c_address cam\<rparr> = (cam :: camera)"
  by (cases cam) simp







lemma cursor_append_list [simp]:
  "cursor cam r (t @ s) = (case cursor cam r s of Some v \<Rightarrow> Some v | None \<Rightarrow> cursor cam r t)"
  by (induction t) (auto split: option.splits)

lemma agree_readReg:
  "agree_at cam ir i w w' \<Longrightarrow> cursor cam ir t = Some i \<Longrightarrow>
   readReg w' cam r t = readReg w cam r t"
  by (simp add: agree_at_def readReg_def)

lemma agree_writeReg:
  "agree_at cam ir i w w' \<Longrightarrow> cursor cam ir t = Some i \<Longrightarrow>
   writeReg w' cam r v t = writeReg w cam r v t"
  by (simp add: agree_at_def writeReg_def)

lemma readReg_cursor:
  "readReg w cam r t = Return v t1 \<Longrightarrow> cursor cam ir t1 = cursor cam ir t"
  by (auto simp add: readReg_Return)

lemma writeReg_cursor:
  "writeReg w cam r v t = Return u t1 \<Longrightarrow> r \<noteq> ir \<Longrightarrow> cursor cam ir t1 = cursor cam ir t"
  by (auto simp add: writeReg_Return)

lemma fps_loop_transfer:
  assumes major: "enum_resolutions_fps_loop w cam c t = Some y"
    and ne: "ir \<noteq> CTRL_INDEX_REG"
  shows "agree_at cam ir i w w' \<longrightarrow> cursor cam ir t = Some i \<longrightarrow>
     enum_resolutions_fps_loop w' cam c t = Some y \<and> cursor cam ir (trace_of y) = Some i"
proof (rule enum_resolutions_fps_loop.raw_induct [where
      P = "\<lambda>w cam c t y. agree_at cam ir i w w' \<longrightarrow> cursor cam ir t = Some i \<longrightarrow>
        enum_resolutions_fps_loop w' cam c t = Some y \<and> cursor cam ir (trace_of y) = Some i",
      OF _ major])
  fix f w cam c t y
  assume IH: "\<And>w cam c t y. f w cam c t = Some y \<Longrightarrow>
      agree_at cam ir i w w' \<longrightarrow> cursor cam ir t = Some i \<longrightarrow>
        enum_resolutions_fps_loop w' cam c t = Some y \<and> cursor cam ir (trace_of y) = Some i"
    and step: "(case writeReg w cam CTRL_INDEX_REG c t of
        Raise e t1 \<Rightarrow> Some (Raise e t1)
      | Return _ t1 \<Rightarrow>
     (case readReg w cam CTRL_ID_REG t1 of
        Raise e t2 \<Rightarrow> Some (Raise e t2)
      | Return ctrl_id t2 \<Rightarrow>
        if ctrl_id = NO_DATA_AVAILABLE then Some (Return None t2)
        else if ctrl_id = 0x981906 then
          (case readReg w cam CTRL_MAX_REG t2 of
             Raise e t3 \<Rightarrow> Some (Raise e t3)
           | Return m t3 \<Rightarrow> Some (Return (Some m) t3))
        else f w cam (c + 1) t2)) = Some y"
  show "agree_at cam ir i w w' \<longrightarrow> cursor cam ir t = Some i \<longrightarrow>
        enum_resolutions_fps_loop w' cam c t = Some y \<and> cursor cam ir (trace_of y) = Some i"
  proof (intro impI)
    assume ag: "agree_at cam ir i w w'" and cur: "cursor cam ir t = Some i"
    note rw = agree_readReg [OF ag] agree_writeReg [OF ag]
    show "enum_resolutions_fps_loop w' cam c t = Some y \<and> cursor cam ir (trace_of y) = Some i"
      using step cur ne IH ag
      by (subst enum_resolutions_fps_loop.simps)
        (auto simp add: rw readReg_Return readReg_Raise writeReg_Return writeReg_Raise
          split: outcome.splits if_splits)
  qed
qed

lemma entry_transfer:
  assumes major: "enum_resolutions_entry w cam idx t = Some y"
    and ne: "ir \<noteq> CTRL_INDEX_REG"
    and ag: "agree_at cam ir i w w'" and cur: "cursor cam ir t = Some i"
  shows "enum_resolutions_entry w' cam idx t = Some y \<and> cursor cam ir (trace_of y) = Some i"
proof -
  note rw = agree_readReg [OF ag] agree_writeReg [OF ag]
  note tr = fps_loop_transfer [OF _ ne, THEN mp, OF _ ag, THEN mp]
  show ?thesis
    using major cur ne
    unfolding enum_resolutions_entry_def
    by (auto simp add: rw readReg_Return readReg_Raise writeReg_Return writeReg_Raise
          split: outcome.splits option.splits dest!: tr)
qed

lemma entry_index:
  "enum_resolutions_entry w cam idx t = Some (Return r t') \<Longrightarrow> index r = idx"
  unfolding enum_resolutions_entry_def
  by (auto split: outcome.splits option.splits)

lemma res_loop_forward:
  assumes wr: "\<forall>h v. write_16_32 w h (bus cam) (i2c_address cam) RESOLUTION_INDEX_REG v"
    and pres: "\<forall>h i. cursor cam RESOLUTION_INDEX_REG h = Some i \<longrightarrow> i < k \<longrightarrow>
        (\<exists>v. read_16_32 w h (bus cam) (i2c_address cam) RESOLUTION_INDEX_REG = Some v
             \<and> v \<noteq> NO_DATA_AVAILABLE)"
    and last: "\<forall>h. cursor cam RESOLUTION_INDEX_REG h = Some k \<longrightarrow>
        read_16_32 w h (bus cam) (i2c_address cam) RESOLUTION_INDEX_REG = Some NO_DATA_AVAILABLE"
    and ent: "\<forall>h i. i < k \<longrightarrow> (\<exists>r h'. enum_resolutions_entry w cam i h = Some (Return r h'))"
  shows "i \<le> k \<Longrightarrow> \<exists>rs t'. enum_resolutions_loop w cam i acc t = Some (Return (acc @ rs) t')
      \<and> map index rs = [i..<k]"
proof (induction "k - i" arbitrary: i acc t)
  case 0
  then have ik: "i = k" by simp
  let ?t1 = "t @ [Write cam RESOLUTION_INDEX_REG k]"
  have "cursor cam RESOLUTION_INDEX_REG ?t1 = Some k" by simp
  with last have "readReg w cam RESOLUTION_INDEX_REG ?t1
      = Return NO_DATA_AVAILABLE (?t1 @ [Read cam RESOLUTION_INDEX_REG NO_DATA_AVAILABLE])"
    by (simp add: readReg_def)
  then have "enum_resolutions_loop w cam i acc t
     = Some (Return (acc @ []) (?t1 @ [Read cam RESOLUTION_INDEX_REG NO_DATA_AVAILABLE]))"
    using wr by (subst enum_resolutions_loop.simps) (simp add: ik writeReg_def)
  then show ?case using ik by (intro exI [of _ "[]"] exI conjI) simp_all
next
  case (Suc n)
  then have lt: "i < k" by simp
  let ?t1 = "t @ [Write cam RESOLUTION_INDEX_REG i]"
  have "cursor cam RESOLUTION_INDEX_REG ?t1 = Some i" by simp
  with pres lt obtain v where
    v: "read_16_32 w ?t1 (bus cam) (i2c_address cam) RESOLUTION_INDEX_REG = Some v"
       "v \<noteq> NO_DATA_AVAILABLE" by blast
  let ?t2 = "?t1 @ [Read cam RESOLUTION_INDEX_REG v]"
  from ent lt obtain r t3 where r: "enum_resolutions_entry w cam i ?t2 = Some (Return r t3)"
    by blast
  have step: "enum_resolutions_loop w cam i acc t
      = enum_resolutions_loop w cam (Suc i) (acc @ [r]) t3"
    using wr v r by (subst enum_resolutions_loop.simps) (simp add: writeReg_def readReg_def)
  from Suc.hyps(2) lt have "n = k - Suc i" "Suc i \<le> k" by simp_all
  from Suc.hyps(1) [OF this, of "acc @ [r]" t3] obtain rs t' where
    rs: "enum_resolutions_loop w cam (Suc i) (acc @ [r]) t3 = Some (Return ((acc @ [r]) @ rs) t')"
        "map index rs = [Suc i..<k]" by blast
  have "map index (r # rs) = [i..<k]"
    using rs(2) entry_index [OF r] lt by (simp add: upt_conv_Cons)
  with step rs(1) show ?case
    by (intro exI [of _ "r # rs"] exI [of _ t'] conjI) simp_all
qed

lemma res_loop_transfer:
  assumes wr: "\<forall>h v. write_16_32 w h (bus cam) (i2c_address cam) RESOLUTION_INDEX_REG v"
    and pres: "\<forall>h i. cursor cam RESOLUTION_INDEX_REG h = Some i \<longrightarrow> i < k \<longrightarrow>
        (\<exists>v. read_16_32 w h (bus cam) (i2c_address cam) RESOLUTION_INDEX_REG = Some v
             \<and> v \<noteq> NO_DATA_AVAILABLE)"
    and last: "\<forall>h. cursor cam RESOLUTION_INDEX_REG h = Some k \<longrightarrow>
        read_16_32 w h (bus cam) (i2c_address cam) RESOLUTION_INDEX_REG = Some NO_DATA_AVAILABLE"
    and ent: "\<forall>h i. i < k \<longrightarrow> (\<exists>r h'. enum_resolutions_entry w cam i h = Some (Return r h'))"
    and wr': "\<forall>h v. write_16_32 w' h (bus cam) (i2c_address cam) RESOLUTION_INDEX_REG v"
    and ag: "\<forall>i<k. agree_at cam RESOLUTION_INDEX_REG i w w'"
    and last': "\<forall>h. cursor cam RESOLUTION_INDEX_REG h = Some k \<longrightarrow>
        read_16_32 w' h (bus cam) (i2c_address cam) RESOLUTION_INDEX_REG = Some NO_DATA_AVAILABLE"
  shows "i \<le> k \<Longrightarrow> enum_resolutions_loop w' cam i acc t = enum_resolutions_loop w cam i acc t"
proof (induction "k - i" arbitrary: i acc t)
  case 0
  then have ik: "i = k" by simp
  let ?t1 = "t @ [Write cam RESOLUTION_INDEX_REG k]"
  have c: "cursor cam RESOLUTION_INDEX_REG ?t1 = Some k" by simp
  from c last have a: "readReg w cam RESOLUTION_INDEX_REG ?t1
      = Return NO_DATA_AVAILABLE (?t1 @ [Read cam RESOLUTION_INDEX_REG NO_DATA_AVAILABLE])"
    by (simp add: readReg_def)
  from c last' have b: "readReg w' cam RESOLUTION_INDEX_REG ?t1
      = Return NO_DATA_AVAILABLE (?t1 @ [Read cam RESOLUTION_INDEX_REG NO_DATA_AVAILABLE])"
    by (simp add: readReg_def)
  show ?case
    using wr wr' a b
    by (subst (1 2) enum_resolutions_loop.simps) (simp add: ik writeReg_def)
next
  case (Suc n)
  then have lt: "i < k" by simp
  from ag lt have agi: "agree_at cam RESOLUTION_INDEX_REG i w w'" by blast
  let ?t1 = "t @ [Write cam RESOLUTION_INDEX_REG i]"
  have c1: "cursor cam RESOLUTION_INDEX_REG ?t1 = Some i" by simp
  with pres lt obtain v where
    v: "read_16_32 w ?t1 (bus cam) (i2c_address cam) RESOLUTION_INDEX_REG = Some v"
       "v \<noteq> NO_DATA_AVAILABLE" by blast
  let ?t2 = "?t1 @ [Read cam RESOLUTION_INDEX_REG v]"
  have c2: "cursor cam RESOLUTION_INDEX_REG ?t2 = Some i" by simp
  from ent lt obtain r t3 where r: "enum_resolutions_entry w cam i ?t2 = Some (Return r t3)"
    by blast
  have ne: "RESOLUTION_INDEX_REG \<noteq> CTRL_INDEX_REG" by (simp add: reg_values)
  from entry_transfer [OF r ne agi c2]
  have r': "enum_resolutions_entry w' cam i ?t2 = Some (Return r t3)" by simp
  have rd: "readReg w cam RESOLUTION_INDEX_REG ?t1 = Return v ?t2"
    using v by (simp add: readReg_def)
  have rd': "readReg w' cam RESOLUTION_INDEX_REG ?t1 = Return v ?t2"
    using agree_readReg [OF agi c1] rd by simp
  have step: "enum_resolutions_loop w cam i acc t
      = enum_resolutions_loop w cam (Suc i) (acc @ [r]) t3"
    using wr v(2) rd r by (subst enum_resolutions_loop.simps) (simp add: writeReg_def)
  have step': "enum_resolutions_loop w' cam i acc t
      = enum_resolutions_loop w' cam (Suc i) (acc @ [r]) t3"
    using wr' v(2) rd' r' by (subst enum_resolutions_loop.simps) (simp add: writeReg_def)
  from Suc.hyps(2) lt have "n = k - Suc i" "Suc i \<le> k" by simp_all
  from Suc.hyps(1) [OF this, of "acc @ [r]" t3] step step' show ?case by simp
qed

lemma ntf_readReg [simp]:
  "no_transport_failure w cam \<Longrightarrow> readReg w cam r t \<noteq> Raise e t'"
proof -
  assume "no_transport_failure w cam"
  then have "read_16_32 w t (bus cam) (i2c_address cam) r \<noteq> None"
    unfolding no_transport_failure_def by (elim conjE allE)
  then show ?thesis by (auto simp add: readReg_def)
qed

lemma ntf_writeReg [simp]:
  "no_transport_failure w cam \<Longrightarrow> writeReg w cam r v t \<noteq> Raise e t'"
proof -
  assume "no_transport_failure w cam"
  then have "write_16_32 w t (bus cam) (i2c_address cam) r v"
    unfolding no_transport_failure_def by (elim conjE allE)
  then show ?thesis by (simp add: writeReg_def)
qed

lemma ntf_readReg_sym [simp]:
  "no_transport_failure w cam \<Longrightarrow> Raise e t' \<noteq> readReg w cam r t"
  by (rule not_sym) (rule ntf_readReg)

lemma ntf_writeReg_sym [simp]:
  "no_transport_failure w cam \<Longrightarrow> Raise e t' \<noteq> writeReg w cam r v t"
  by (rule not_sym) (rule ntf_writeReg)

lemma fps_loop_no_raise:
  assumes major: "enum_resolutions_fps_loop w cam c t = Some y"
  shows "no_transport_failure w cam \<longrightarrow> (\<forall>e t'. y \<noteq> Raise e t')"
proof (rule enum_resolutions_fps_loop.raw_induct [where
      P = "\<lambda>w cam c t y. no_transport_failure w cam \<longrightarrow> (\<forall>e t'. y \<noteq> Raise e t')",
      OF _ major])
  fix f w cam c t y
  assume IH: "\<And>w cam c t y. f w cam c t = Some y \<Longrightarrow>
      no_transport_failure w cam \<longrightarrow> (\<forall>e t'. y \<noteq> Raise e t')"
    and step: "(case writeReg w cam CTRL_INDEX_REG c t of
        Raise e t1 \<Rightarrow> Some (Raise e t1)
      | Return _ t1 \<Rightarrow>
     (case readReg w cam CTRL_ID_REG t1 of
        Raise e t2 \<Rightarrow> Some (Raise e t2)
      | Return ctrl_id t2 \<Rightarrow>
        if ctrl_id = NO_DATA_AVAILABLE then Some (Return None t2)
        else if ctrl_id = 0x981906 then
          (case readReg w cam CTRL_MAX_REG t2 of
             Raise e t3 \<Rightarrow> Some (Raise e t3)
           | Return m t3 \<Rightarrow> Some (Return (Some m) t3))
        else f w cam (c + 1) t2)) = Some y"
  show "no_transport_failure w cam \<longrightarrow> (\<forall>e t'. y \<noteq> Raise e t')"
    using step IH
    by (auto split: outcome.splits if_splits)
qed

lemma entry_no_raise:
  "enum_resolutions_entry w cam idx t = Some y \<Longrightarrow> no_transport_failure w cam \<Longrightarrow>
   \<forall>e t'. y \<noteq> Raise e t'"
  unfolding enum_resolutions_entry_def
  by (auto split: outcome.splits option.splits dest!: fps_loop_no_raise [THEN mp])

lemma res_loop_never_returns:
  assumes major: "enum_resolutions_loop w cam idx acc t = Some y"
  shows "(\<forall>h. read_16_32 w h (bus cam) (i2c_address cam) RESOLUTION_INDEX_REG
              \<noteq> Some NO_DATA_AVAILABLE) \<longrightarrow>
         (\<forall>v t'. y \<noteq> Return v t') \<and> \<not> no_transport_failure w cam"
proof (rule enum_resolutions_loop.raw_induct [where
      P = "\<lambda>w cam idx acc t y.
        (\<forall>h. read_16_32 w h (bus cam) (i2c_address cam) RESOLUTION_INDEX_REG
              \<noteq> Some NO_DATA_AVAILABLE) \<longrightarrow>
         (\<forall>v t'. y \<noteq> Return v t') \<and> \<not> no_transport_failure w cam",
      OF _ major])
  fix f w cam idx acc t y
  assume IH: "\<And>w cam idx acc t y. f w cam idx acc t = Some y \<Longrightarrow>
        (\<forall>h. read_16_32 w h (bus cam) (i2c_address cam) RESOLUTION_INDEX_REG
              \<noteq> Some NO_DATA_AVAILABLE) \<longrightarrow>
         (\<forall>v t'. y \<noteq> Return v t') \<and> \<not> no_transport_failure w cam"
    and step: "(case writeReg w cam RESOLUTION_INDEX_REG idx t of
        Raise e t1 \<Rightarrow> Some (Raise e t1)
      | Return _ t1 \<Rightarrow>
     (case readReg w cam RESOLUTION_INDEX_REG t1 of
        Raise e t2 \<Rightarrow> Some (Raise e t2)
      | Return val t2 \<Rightarrow>
        if val = NO_DATA_AVAILABLE then Some (Return acc t2)
        else
          (case enum_resolutions_entry w cam idx t2 of
             None \<Rightarrow> None
           | Some (Raise e t3) \<Rightarrow> Some (Raise e t3)
           | Some (Return res t3) \<Rightarrow> f w cam (idx + 1) (acc @ [res]) t3))) = Some y"
  show "(\<forall>h. read_16_32 w h (bus cam) (i2c_address cam) RESOLUTION_INDEX_REG
              \<noteq> Some NO_DATA_AVAILABLE) \<longrightarrow>
         (\<forall>v t'. y \<noteq> Return v t') \<and> \<not> no_transport_failure w cam"
  proof (intro impI)
    assume ns: "\<forall>h. read_16_32 w h (bus cam) (i2c_address cam) RESOLUTION_INDEX_REG
              \<noteq> Some NO_DATA_AVAILABLE"
    show "(\<forall>v t'. y \<noteq> Return v t') \<and> \<not> no_transport_failure w cam"
      using step ns IH
      by (auto simp add: readReg_Return
          split: outcome.splits if_splits option.splits
          dest: entry_no_raise)
  qed
qed

lemma res_loop_no_raise:
  assumes major: "enum_resolutions_loop w cam idx acc t = Some y"
  shows "no_transport_failure w cam \<longrightarrow> (\<forall>e t'. y \<noteq> Raise e t')"
proof (rule enum_resolutions_loop.raw_induct [where
      P = "\<lambda>w cam idx acc t y. no_transport_failure w cam \<longrightarrow> (\<forall>e t'. y \<noteq> Raise e t')",
      OF _ major])
  fix f w cam idx acc t y
  assume IH: "\<And>w cam idx acc t y. f w cam idx acc t = Some y \<Longrightarrow>
        no_transport_failure w cam \<longrightarrow> (\<forall>e t'. y \<noteq> Raise e t')"
    and step: "(case writeReg w cam RESOLUTION_INDEX_REG idx t of
        Raise e t1 \<Rightarrow> Some (Raise e t1)
      | Return _ t1 \<Rightarrow>
     (case readReg w cam RESOLUTION_INDEX_REG t1 of
        Raise e t2 \<Rightarrow> Some (Raise e t2)
      | Return val t2 \<Rightarrow>
        if val = NO_DATA_AVAILABLE then Some (Return acc t2)
        else
          (case enum_resolutions_entry w cam idx t2 of
             None \<Rightarrow> None
           | Some (Raise e t3) \<Rightarrow> Some (Raise e t3)
           | Some (Return res t3) \<Rightarrow> f w cam (idx + 1) (acc @ [res]) t3))) = Some y"
  show "no_transport_failure w cam \<longrightarrow> (\<forall>e t'. y \<noteq> Raise e t')"
    using step IH
    by (auto split: outcome.splits if_splits option.splits dest: entry_no_raise)
qed

lemma controls_loop_never_returns:
  assumes major: "main_controls_loop w cam c t = Some y"
  shows "(no_transport_failure w cam \<longrightarrow> (\<forall>e t'. y \<noteq> Raise e t'))
      \<and> ((\<forall>h. read_16_32 w h (bus cam) (i2c_address cam) CTRL_ID_REG
              \<noteq> Some NO_DATA_AVAILABLE) \<longrightarrow>
         (\<forall>v t'. y \<noteq> Return v t') \<and> \<not> no_transport_failure w cam)"
proof (rule main_controls_loop.raw_induct [where
      P = "\<lambda>w cam c t y. (no_transport_failure w cam \<longrightarrow> (\<forall>e t'. y \<noteq> Raise e t'))
      \<and> ((\<forall>h. read_16_32 w h (bus cam) (i2c_address cam) CTRL_ID_REG
              \<noteq> Some NO_DATA_AVAILABLE) \<longrightarrow>
         (\<forall>v t'. y \<noteq> Return v t') \<and> \<not> no_transport_failure w cam)",
      OF _ major])
  fix f w cam c t y
  assume IH: "\<And>w cam c t y. f w cam c t = Some y \<Longrightarrow>
      (no_transport_failure w cam \<longrightarrow> (\<forall>e t'. y \<noteq> Raise e t'))
      \<and> ((\<forall>h. read_16_32 w h (bus cam) (i2c_address cam) CTRL_ID_REG
              \<noteq> Some NO_DATA_AVAILABLE) \<longrightarrow>
         (\<forall>v t'. y \<noteq> Return v t') \<and> \<not> no_transport_failure w cam)"
    and step: "(case writeReg w cam CTRL_INDEX_REG c t of
        Raise e t1 \<Rightarrow> Some (Raise e t1)
      | Return _ t1 \<Rightarrow>
     (case readReg w cam CTRL_ID_REG t1 of
        Raise e t2 \<Rightarrow> Some (Raise e t2)
      | Return ctrl_id t2 \<Rightarrow>
        if ctrl_id = NO_DATA_AVAILABLE then Some (Return () t2)
        else
     (case writeReg w cam CTRL_VALUE_REG 0 t2 of
        Raise e t3 \<Rightarrow> Some (Raise e t3)
      | Return _ t3 \<Rightarrow>
     (case readReg w cam CTRL_MAX_REG (wait_for_free t3) of
        Raise e t4 \<Rightarrow> Some (Raise e t4)
      | Return max_val t4 \<Rightarrow>
     (case readReg w cam CTRL_MIN_REG t4 of
        Raise e t5 \<Rightarrow> Some (Raise e t5)
      | Return min_val t5 \<Rightarrow>
     (case readReg w cam CTRL_DEF_REG t5 of
        Raise e t6 \<Rightarrow> Some (Raise e t6)
      | Return def_val t6 \<Rightarrow>
          f w cam (c + 1)
            (logging (ControlInfo ctrl_id (dict_get ID_map ctrl_id ''Unknown'')
                        max_val min_val def_val) INFO t6))))))) = Some y"
  show "(no_transport_failure w cam \<longrightarrow> (\<forall>e t'. y \<noteq> Raise e t'))
      \<and> ((\<forall>h. read_16_32 w h (bus cam) (i2c_address cam) CTRL_ID_REG
              \<noteq> Some NO_DATA_AVAILABLE) \<longrightarrow>
         (\<forall>v t'. y \<noteq> Return v t') \<and> \<not> no_transport_failure w cam)"
  proof (rule conjI)
    show "no_transport_failure w cam \<longrightarrow> (\<forall>e t'. y \<noteq> Raise e t')"
      using step IH by (auto split: outcome.splits if_splits)
    show "(\<forall>h. read_16_32 w h (bus cam) (i2c_address cam) CTRL_ID_REG
              \<noteq> Some NO_DATA_AVAILABLE) \<longrightarrow>
         (\<forall>v t'. y \<noteq> Return v t') \<and> \<not> no_transport_failure w cam"
      using step IH
      by (auto simp add: readReg_Return split: outcome.splits if_splits)
  qed
qed

lemma fps_loop_never_returns:
  assumes major: "enum_resolutions_fps_loop w cam c t = Some y"
  shows "(\<forall>h. read_16_32 w h (bus cam) (i2c_address cam) CTRL_ID_REG
              \<noteq> Some NO_DATA_AVAILABLE
            \<and> read_16_32 w h (bus cam) (i2c_address cam) CTRL_ID_REG \<noteq> Some 0x981906) \<longrightarrow>
         (\<forall>v t'. y \<noteq> Return v t') \<and> \<not> no_transport_failure w cam"
proof (rule enum_resolutions_fps_loop.raw_induct [where
      P = "\<lambda>w cam c t y. (\<forall>h. read_16_32 w h (bus cam) (i2c_address cam) CTRL_ID_REG
              \<noteq> Some NO_DATA_AVAILABLE
            \<and> read_16_32 w h (bus cam) (i2c_address cam) CTRL_ID_REG \<noteq> Some 0x981906) \<longrightarrow>
         (\<forall>v t'. y \<noteq> Return v t') \<and> \<not> no_transport_failure w cam",
      OF _ major])
  fix f w cam c t y
  assume IH: "\<And>w cam c t y. f w cam c t = Some y \<Longrightarrow>
      (\<forall>h. read_16_32 w h (bus cam) (i2c_address cam) CTRL_ID_REG
              \<noteq> Some NO_DATA_AVAILABLE
            \<and> read_16_32 w h (bus cam) (i2c_address cam) CTRL_ID_REG \<noteq> Some 0x981906) \<longrightarrow>
         (\<forall>v t'. y \<noteq> Return v t') \<and> \<not> no_transport_failure w cam"
    and step: "(case writeReg w cam CTRL_INDEX_REG c t of
        Raise e t1 \<Rightarrow> Some (Raise e t1)
      | Return _ t1 \<Rightarrow>
     (case readReg w cam CTRL_ID_REG t1 of
        Raise e t2 \<Rightarrow> Some (Raise e t2)
      | Return ctrl_id t2 \<Rightarrow>
        if ctrl_id = NO_DATA_AVAILABLE then Some (Return None t2)
        else if ctrl_id = 0x981906 then
          (case readReg w cam CTRL_MAX_REG t2 of
             Raise e t3 \<Rightarrow> Some (Raise e t3)
           | Return m t3 \<Rightarrow> Some (Return (Some m) t3))
        else f w cam (c + 1) t2)) = Some y"
  show "(\<forall>h. read_16_32 w h (bus cam) (i2c_address cam) CTRL_ID_REG
              \<noteq> Some NO_DATA_AVAILABLE
            \<and> read_16_32 w h (bus cam) (i2c_address cam) CTRL_ID_REG \<noteq> Some 0x981906) \<longrightarrow>
         (\<forall>v t'. y \<noteq> Return v t') \<and> \<not> no_transport_failure w cam"
  proof (intro impI)
    assume ns: "\<forall>h. read_16_32 w h (bus cam) (i2c_address cam) CTRL_ID_REG
              \<noteq> Some NO_DATA_AVAILABLE
            \<and> read_16_32 w h (bus cam) (i2c_address cam) CTRL_ID_REG \<noteq> Some 0x981906"
    show "(\<forall>v t'. y \<noteq> Return v t') \<and> \<not> no_transport_failure w cam"
      using step ns IH
      by (auto simp add: readReg_Return split: outcome.splits if_splits)
  qed
qed

lemma main_resolutions_loop_no_raise:
  "main_resolutions_loop w cam rs t = Some y \<Longrightarrow> no_transport_failure w cam \<Longrightarrow>
   \<forall>e t'. y \<noteq> Raise e t'"
proof (induction rs arbitrary: t)
  case Nil
  then show ?case by auto
next
  case (Cons r rs)
  then show ?case
    by (auto split: option.splits outcome.splits
        dest: controls_loop_never_returns [THEN conjunct1, THEN mp])
qed

lemma pixformat_entry_no_raise:
  "main_pixformat_entry w cam t = Some y \<Longrightarrow> no_transport_failure w cam \<Longrightarrow>
   \<forall>e t'. y \<noteq> Raise e t'"
  unfolding main_pixformat_entry_def enum_resolutions_def Let_def
  by (auto split: outcome.splits option.splits
      dest: res_loop_no_raise [THEN mp] main_resolutions_loop_no_raise)

lemma pixformat_loop_never_returns:
  assumes major: "main_pixformat_loop w cam p t = Some y"
  shows "(\<forall>h. read_16_32 w h (bus cam) (i2c_address cam) PIXFORMAT_INDEX_REG
              \<noteq> Some NO_DATA_AVAILABLE) \<longrightarrow>
         (\<forall>v t'. y \<noteq> Return v t') \<and> \<not> no_transport_failure w cam"
proof (rule main_pixformat_loop.raw_induct [where
      P = "\<lambda>w cam p t y.
        (\<forall>h. read_16_32 w h (bus cam) (i2c_address cam) PIXFORMAT_INDEX_REG
              \<noteq> Some NO_DATA_AVAILABLE) \<longrightarrow>
         (\<forall>v t'. y \<noteq> Return v t') \<and> \<not> no_transport_failure w cam",
      OF _ major])
  fix f w cam p t y
  assume IH: "\<And>w cam p t y. f w cam p t = Some y \<Longrightarrow>
        (\<forall>h. read_16_32 w h (bus cam) (i2c_address cam) PIXFORMAT_INDEX_REG
              \<noteq> Some NO_DATA_AVAILABLE) \<longrightarrow>
         (\<forall>v t'. y \<noteq> Return v t') \<and> \<not> no_transport_failure w cam"
    and step: "(case writeReg w cam PIXFORMAT_INDEX_REG p t of
        Raise e t1 \<Rightarrow> Some (Raise e t1)
      | Return _ t1 \<Rightarrow>
     (case readReg w cam PIXFORMAT_INDEX_REG t1 of
        Raise e t2 \<Rightarrow> Some (Raise e t2)
      | Return val t2 \<Rightarrow>
        if val = NO_DATA_AVAILABLE then Some (Return () t2)
        else
          (case main_pixformat_entry w cam t2 of
             None \<Rightarrow> None
           | Some (Raise e t3) \<Rightarrow> Some (Raise e t3)
           | Some (Return _ t3) \<Rightarrow> f w cam (p + 1) t3))) = Some y"
  show "(\<forall>h. read_16_32 w h (bus cam) (i2c_address cam) PIXFORMAT_INDEX_REG
              \<noteq> Some NO_DATA_AVAILABLE) \<longrightarrow>
         (\<forall>v t'. y \<noteq> Return v t') \<and> \<not> no_transport_failure w cam"
  proof (intro impI)
    assume ns: "\<forall>h. read_16_32 w h (bus cam) (i2c_address cam) PIXFORMAT_INDEX_REG
              \<noteq> Some NO_DATA_AVAILABLE"
    show "(\<forall>v t'. y \<noteq> Return v t') \<and> \<not> no_transport_failure w cam"
      using step ns IH
      by (auto simp add: readReg_Return
          split: outcome.splits if_splits option.splits
          dest: pixformat_entry_no_raise)
  qed
qed

lemma never_returns_None:
  assumes "\<And>y. f = Some y \<Longrightarrow> (\<forall>v t'. y \<noteq> Return v t') \<and> \<not> ok"
  shows "(\<forall>v t'. f \<noteq> Some (Return v t')) \<and> (ok \<longrightarrow> f = None)"
  using assms by (cases f) auto

lemma stuck_world_ok: "no_transport_failure stuck_world cam"
  by (simp add: no_transport_failure_def stuck_world_def)

lemma stuck_world_read [simp]: "read_16_32 stuck_world h b a r = Some 0"
  by (simp add: stuck_world_def)

lemma sentinel_not_0 [simp]: "0 \<noteq> NO_DATA_AVAILABLE" "NO_DATA_AVAILABLE \<noteq> 0"
  by (simp_all add: NO_DATA_AVAILABLE_def)

text \<open>
  C2, as the claim states it, fails: on a transport whose registers always read 0, so that
  the presence register never returns the sentinel, \<open>enum_resolutions\<close> does not end
  with an overflow condition: it never returns.
\<close>

theorem C2_counterexample: "enum_resolutions stuck_world cam0 [] = None"
proof (cases "enum_resolutions stuck_world cam0 []")
  case None
  then show ?thesis .
next
  case (Some y)
  then have "enum_resolutions_loop stuck_world cam0 0 [] [] = Some y"
    by (simp add: enum_resolutions_def)
  from res_loop_never_returns [OF this] stuck_world_ok [of cam0]
  show ?thesis by simp
qed

text \<open>
  C2, amended: no enumeration loop has an iteration ceiling, and the only errors of the
  program are \<open>RuntimeError\<close> and \<open>TransportError\<close>. When the presence register never
  returns the sentinel, the resolution loop, the pixel-format loop and the control loop of
  \<open>main\<close> never return a result, and on a transport without failures they never return
  at all; the same holds for the Framerate scan when the control id is never the sentinel
  and never \<open>0x981906\<close>.
\<close>

theorem C2_no_iteration_ceiling:
  "((\<forall>h. read_16_32 w h (bus cam) (i2c_address cam) RESOLUTION_INDEX_REG
          \<noteq> Some NO_DATA_AVAILABLE) \<longrightarrow>
      (\<forall>rs t'. enum_resolutions w cam t \<noteq> Some (Return rs t'))
      \<and> (no_transport_failure w cam \<longrightarrow> enum_resolutions w cam t = None))
   \<and> ((\<forall>h. read_16_32 w h (bus cam) (i2c_address cam) PIXFORMAT_INDEX_REG
          \<noteq> Some NO_DATA_AVAILABLE) \<longrightarrow>
      (\<forall>u t'. main_pixformat_loop w cam 0 t \<noteq> Some (Return u t'))
      \<and> (no_transport_failure w cam \<longrightarrow> main_pixformat_loop w cam 0 t = None))
   \<and> ((\<forall>h. read_16_32 w h (bus cam) (i2c_address cam) CTRL_ID_REG
          \<noteq> Some NO_DATA_AVAILABLE) \<longrightarrow>
      (\<forall>u t'. main_controls_loop w cam 0 t \<noteq> Some (Return u t'))
      \<and> (no_transport_failure w cam \<longrightarrow> main_controls_loop w cam 0 t = None))
   \<and> ((\<forall>h. read_16_32 w h (bus cam) (i2c_address cam) CTRL_ID_REG
             \<noteq> Some NO_DATA_AVAILABLE
           \<and> read_16_32 w h (bus cam) (i2c_address cam) CTRL_ID_REG \<noteq> Some 0x981906) \<longrightarrow>
      (\<forall>m t'. enum_resolutions_fps_loop w cam 0 t \<noteq> Some (Return m t'))
      \<and> (no_transport_failure w cam \<longrightarrow> enum_resolutions_fps_loop w cam 0 t = None))"
proof (intro conjI impI)
  assume ns: "\<forall>h. read_16_32 w h (bus cam) (i2c_address cam) RESOLUTION_INDEX_REG
          \<noteq> Some NO_DATA_AVAILABLE"
  have "(\<forall>v t'. enum_resolutions_loop w cam 0 [] t \<noteq> Some (Return v t'))
      \<and> (no_transport_failure w cam \<longrightarrow> enum_resolutions_loop w cam 0 [] t = None)"
    by (rule never_returns_None) (rule res_loop_never_returns [THEN mp, OF _ ns])
  then show "\<forall>rs t'. enum_resolutions w cam t \<noteq> Some (Return rs t')"
    and "no_transport_failure w cam \<Longrightarrow> enum_resolutions w cam t = None"
    by (simp_all add: enum_resolutions_def)
next
  assume ns: "\<forall>h. read_16_32 w h (bus cam) (i2c_address cam) PIXFORMAT_INDEX_REG
          \<noteq> Some NO_DATA_AVAILABLE"
  have "(\<forall>v t'. main_pixformat_loop w cam 0 t \<noteq> Some (Return v t'))
      \<and> (no_transport_failure w cam \<longrightarrow> main_pixformat_loop w cam 0 t = None)"
    by (rule never_returns_None) (rule pixformat_loop_never_returns [THEN mp, OF _ ns])
  then show "\<forall>u t'. main_pixformat_loop w cam 0 t \<noteq> Some (Return u t')"
    and "no_transport_failure w cam \<Longrightarrow> main_pixformat_loop w cam 0 t = None"
    by simp_all
next
  assume ns: "\<forall>h. read_16_32 w h (bus cam) (i2c_address cam) CTRL_ID_REG
          \<noteq> Some NO_DATA_AVAILABLE"
  have "(\<forall>v t'. main_controls_loop w cam 0 t \<noteq> Some (Return v t'))
      \<and> (no_transport_failure w cam \<longrightarrow> main_controls_loop w cam 0 t = None)"
    by (rule never_returns_None)
      (rule controls_loop_never_returns [THEN conjunct2, THEN mp, OF _ ns])
  then show "\<forall>u t'. main_controls_loop w cam 0 t \<noteq> Some (Return u t')"
    and "no_transport_failure w cam \<Longrightarrow> main_controls_loop w cam 0 t = None"
    by simp_all
next
  assume ns: "\<forall>h. read_16_32 w h (bus cam) (i2c_address cam) CTRL_ID_REG
             \<noteq> Some NO_DATA_AVAILABLE
           \<and> read_16_32 w h (bus cam) (i2c_address cam) CTRL_ID_REG \<noteq> Some 0x981906"
  have "(\<forall>v t'. enum_resolutions_fps_loop w cam 0 t \<noteq> Some (Return v t'))
      \<and> (no_transport_failure w cam \<longrightarrow> enum_resolutions_fps_loop w cam 0 t = None)"
    by (rule never_returns_None) (rule fps_loop_never_returns [THEN mp, OF _ ns])
  then show "\<forall>m t'. enum_resolutions_fps_loop w cam 0 t \<noteq> Some (Return m t')"
    and "no_transport_failure w cam \<Longrightarrow> enum_resolutions_fps_loop w cam 0 t = None"
    by simp_all
qed

theorem C2_no_iteration_ceiling_witness:
  "no_transport_failure stuck_world cam0
   \<and> (\<forall>h r. read_16_32 stuck_world h (bus cam0) (i2c_address cam0) r = Some 0)
   \<and> enum_resolutions stuck_world cam0 [] = None
   \<and> main_pixformat_loop stuck_world cam0 0 [] = None
   \<and> main_controls_loop stuck_world cam0 0 [] = None
   \<and> enum_resolutions_fps_loop stuck_world cam0 0 [] = None"
  using C2_no_iteration_ceiling [of stuck_world cam0 "[]"] stuck_world_ok [of cam0]
  by simp

lemmas run_simps = writeReg_def readReg_def cam0_def reg_values wait_for_free_def logging_def

lemma demo_one_framerate_run:
  "enum_resolutions (demo_world 1 1 [0x981906]) cam0 [] =
     Some (Return [\<lparr>index = 0, width = 640, height = 480, max_fps = Some 30\<rparr>]
       [Write cam0 RESOLUTION_INDEX_REG 0, Read cam0 RESOLUTION_INDEX_REG 0,
        Read cam0 FORMAT_WIDTH_REG 640, Read cam0 FORMAT_HEIGHT_REG 480,
        Write cam0 CTRL_INDEX_REG 0, Write cam0 CTRL_INDEX_REG 0,
        Read cam0 CTRL_ID_REG 0x981906, Read cam0 CTRL_MAX_REG 30,
        Write cam0 RESOLUTION_INDEX_REG 1, Read cam0 RESOLUTION_INDEX_REG NO_DATA_AVAILABLE])"
  unfolding enum_resolutions_def
  apply (subst enum_resolutions_loop.simps)
  apply (simp add: run_simps demo_world_def enum_resolutions_entry_def)
  apply (subst enum_resolutions_fps_loop.simps)
  apply (simp add: run_simps demo_world_def)
  apply (subst enum_resolutions_loop.simps)
  apply (simp add: run_simps demo_world_def)
  done

lemma demo_controls_run:
  "main_controls_loop (demo_world 1 1 [0x981906]) cam0 0 [] =
     Some (Return ()
       [Write cam0 CTRL_INDEX_REG 0, Read cam0 CTRL_ID_REG 0x981906,
        Write cam0 CTRL_VALUE_REG 0, Sleep,
        Read cam0 CTRL_MAX_REG 30, Read cam0 CTRL_MIN_REG 1, Read cam0 CTRL_DEF_REG 15,
        Print (Log INFO (ControlInfo 0x981906 ''Framerate'' 30 1 15)),
        Write cam0 CTRL_INDEX_REG 1, Read cam0 CTRL_ID_REG NO_DATA_AVAILABLE])"
  apply (subst main_controls_loop.simps)
  apply (simp add: run_simps demo_world_def dict_get_def ID_map_def control_id_map_def
      map_add_def)
  apply (subst main_controls_loop.simps)
  apply (simp add: run_simps demo_world_def)
  done

text \<open>
  The control loop of \<open>main\<close> keeps the contract on the transport with the single control
  Framerate: the maximum, minimum and default are read after the reset and the sleep.
\<close>

lemma main_controls_loop_settles:
  "\<exists>t. main_controls_loop (demo_world 1 1 [0x981906]) cam0 0 [] = Some (Return () t)
       \<and> bounds_settled cam0 0 t"
  unfolding demo_controls_run by (simp add: cam0_def reg_values)

text \<open>
  C4 at the failing input, a camera with one resolution whose only control is Framerate:
  \<open>enum_resolutions\<close> reads \<open>CTRL_MAX_REG\<close> directly after the control id, with no write
  of \<open>CTRL_VALUE_REG\<close> and no sleep before it, so the run does not keep the contract.
\<close>

theorem C4_enum_resolutions_reads_max_unsettled:
  "enum_resolutions (demo_world 1 1 [0x981906]) cam0 [] =
     Some (Return [\<lparr>index = 0, width = 640, height = 480, max_fps = Some 30\<rparr>]
       [Write cam0 RESOLUTION_INDEX_REG 0, Read cam0 RESOLUTION_INDEX_REG 0,
        Read cam0 FORMAT_WIDTH_REG 640, Read cam0 FORMAT_HEIGHT_REG 480,
        Write cam0 CTRL_INDEX_REG 0, Write cam0 CTRL_INDEX_REG 0,
        Read cam0 CTRL_ID_REG 0x981906, Read cam0 CTRL_MAX_REG 30,
        Write cam0 RESOLUTION_INDEX_REG 1, Read cam0 RESOLUTION_INDEX_REG NO_DATA_AVAILABLE])
   \<and> \<not> bounds_settled cam0 0
       [Write cam0 RESOLUTION_INDEX_REG 0, Read cam0 RESOLUTION_INDEX_REG 0,
        Read cam0 FORMAT_WIDTH_REG 640, Read cam0 FORMAT_HEIGHT_REG 480,
        Write cam0 CTRL_INDEX_REG 0, Write cam0 CTRL_INDEX_REG 0,
        Read cam0 CTRL_ID_REG 0x981906, Read cam0 CTRL_MAX_REG 30,
        Write cam0 RESOLUTION_INDEX_REG 1, Read cam0 RESOLUTION_INDEX_REG NO_DATA_AVAILABLE]"
proof (rule conjI)
  show "enum_resolutions (demo_world 1 1 [0x981906]) cam0 [] =
     Some (Return [\<lparr>index = 0, width = 640, height = 480, max_fps = Some 30\<rparr>]
       [Write cam0 RESOLUTION_INDEX_REG 0, Read cam0 RESOLUTION_INDEX_REG 0,
        Read cam0 FORMAT_WIDTH_REG 640, Read cam0 FORMAT_HEIGHT_REG 480,
        Write cam0 CTRL_INDEX_REG 0, Write cam0 CTRL_INDEX_REG 0,
        Read cam0 CTRL_ID_REG 0x981906, Read cam0 CTRL_MAX_REG 30,
        Write cam0 RESOLUTION_INDEX_REG 1, Read cam0 RESOLUTION_INDEX_REG NO_DATA_AVAILABLE])"
    by (rule demo_one_framerate_run)
  show "\<not> bounds_settled cam0 0
       [Write cam0 RESOLUTION_INDEX_REG 0, Read cam0 RESOLUTION_INDEX_REG 0,
        Read cam0 FORMAT_WIDTH_REG 640, Read cam0 FORMAT_HEIGHT_REG 480,
        Write cam0 CTRL_INDEX_REG 0, Write cam0 CTRL_INDEX_REG 0,
        Read cam0 CTRL_ID_REG 0x981906, Read cam0 CTRL_MAX_REG 30,
        Write cam0 RESOLUTION_INDEX_REG 1, Read cam0 RESOLUTION_INDEX_REG NO_DATA_AVAILABLE]"
    by (simp add: cam0_def reg_values)
qed

text \<open>
  C8, as the claim states it, fails: when the width, the height and the control id of the
  one resolution read as the sentinel, \<open>enum_resolutions\<close> stores the sentinel as width
  and height of the descriptor.
\<close>

theorem C8_counterexample:
  "enum_resolutions sentinel_detail_world cam0 [] =
     Some (Return [\<lparr>index = 0, width = NO_DATA_AVAILABLE, height = NO_DATA_AVAILABLE,
                     max_fps = None\<rparr>]
       [Write cam0 RESOLUTION_INDEX_REG 0, Read cam0 RESOLUTION_INDEX_REG 0,
        Read cam0 FORMAT_WIDTH_REG NO_DATA_AVAILABLE,
        Read cam0 FORMAT_HEIGHT_REG NO_DATA_AVAILABLE,
        Write cam0 CTRL_INDEX_REG 0, Write cam0 CTRL_INDEX_REG 0,
        Read cam0 CTRL_ID_REG NO_DATA_AVAILABLE,
        Write cam0 RESOLUTION_INDEX_REG 1, Read cam0 RESOLUTION_INDEX_REG NO_DATA_AVAILABLE])"
  unfolding enum_resolutions_def
  apply (subst enum_resolutions_loop.simps)
  apply (simp add: run_simps sentinel_detail_world_def enum_resolutions_entry_def)
  apply (subst enum_resolutions_fps_loop.simps)
  apply (simp add: run_simps sentinel_detail_world_def)
  apply (subst enum_resolutions_loop.simps)
  apply (simp add: run_simps sentinel_detail_world_def)
  done

lemma adds_only_refl [simp]: "adds_only P t t"
  by (simp add: adds_only_def)

lemma adds_only_snoc: "adds_only P t t' \<Longrightarrow> P e \<Longrightarrow> adds_only P t (t' @ [e])"
  by (auto simp add: adds_only_def)

lemma adds_only_left: "adds_only P (t @ [e]) t' \<Longrightarrow> P e \<Longrightarrow> adds_only P t t'"
  by (auto simp add: adds_only_def)

lemma adds_only_trans: "adds_only P t t1 \<Longrightarrow> adds_only P t1 t2 \<Longrightarrow> adds_only P t t2"
  by (auto simp add: adds_only_def)

lemma adds_only_append [simp]: "adds_only P t (t @ s) \<longleftrightarrow> list_all P s"
  by (simp add: adds_only_def)

lemma adds_only_appendD: "adds_only P (t @ s) t' \<Longrightarrow> list_all P s \<Longrightarrow> adds_only P t t'"
  by (auto simp add: adds_only_def)

lemma adds_only_chain:
  "adds_only P (t @ s) t1 \<Longrightarrow> adds_only P t1 t2 \<Longrightarrow> list_all P s \<Longrightarrow> adds_only P t t2"
  by (auto simp add: adds_only_def)




lemma controls_loop_adds:
  assumes major: "main_controls_loop w cam c t = Some y"
  shows "adds_only resolution_level t (trace_of y)"
proof (rule main_controls_loop.raw_induct [where
      P = "\<lambda>w cam c t y. adds_only resolution_level t (trace_of y)", OF _ major])
  fix f w cam c t y
  assume IH: "\<And>w cam c t y. f w cam c t = Some y \<Longrightarrow>
      adds_only resolution_level t (trace_of y)"
    and step: "(case writeReg w cam CTRL_INDEX_REG c t of
        Raise e t1 \<Rightarrow> Some (Raise e t1)
      | Return _ t1 \<Rightarrow>
     (case readReg w cam CTRL_ID_REG t1 of
        Raise e t2 \<Rightarrow> Some (Raise e t2)
      | Return ctrl_id t2 \<Rightarrow>
        if ctrl_id = NO_DATA_AVAILABLE then Some (Return () t2)
        else
     (case writeReg w cam CTRL_VALUE_REG 0 t2 of
        Raise e t3 \<Rightarrow> Some (Raise e t3)
      | Return _ t3 \<Rightarrow>
     (case readReg w cam CTRL_MAX_REG (wait_for_free t3) of
        Raise e t4 \<Rightarrow> Some (Raise e t4)
      | Return max_val t4 \<Rightarrow>
     (case readReg w cam CTRL_MIN_REG t4 of
        Raise e t5 \<Rightarrow> Some (Raise e t5)
      | Return min_val t5 \<Rightarrow>
     (case readReg w cam CTRL_DEF_REG t5 of
        Raise e t6 \<Rightarrow> Some (Raise e t6)
      | Return def_val t6 \<Rightarrow>
          f w cam (c + 1)
            (logging (ControlInfo ctrl_id (dict_get ID_map ctrl_id ''Unknown'')
                        max_val min_val def_val) INFO t6))))))) = Some y"
  show "adds_only resolution_level t (trace_of y)"
    using step
    by (auto simp add: readReg_Return readReg_Raise writeReg_Return writeReg_Raise
          logging_def wait_for_free_def
        split: outcome.splits if_splits
        dest!: IH dest: adds_only_appendD)
qed

lemma main_resolutions_loop_adds:
  "main_resolutions_loop w cam rs t = Some y \<Longrightarrow> adds_only resolution_level t (trace_of y)"
proof (induction rs arbitrary: t)
  case Nil
  then show ?case by auto
next
  case (Cons r rs)
  from Cons.prems show ?case
    by (auto simp add: logging_def split: option.splits outcome.splits
        dest!: controls_loop_adds Cons.IH dest: adds_only_appendD adds_only_chain)
qed







end
